theory Spec2Isabelle
  imports Main
begin

section \<open>Overview\<close>

text \<open>
  A model of cobalt, a small Go toolkit that dispatches HTTP requests: a router hands a
  request to a closure built at registration, which wraps it in a \<^verbatim>\<open>Context\<close>, runs
  the pre-filters, the route's filters, the handler and the post-filters, and recovers
  from a panic of any of them. The sources hold the file that declares \<^verbatim>\<open>Context\<close>
  and the dispatcher in two variants: src/cobalt.go, on the router package httprouter, and
  a variant of it on the router package httptreemux, which adds route groups. The two variants share every declaration they
  both have, except for one statement of the closure of \<^verbatim>\<open>addroute\<close> and the name of
  \<^verbatim>\<open>AddServerErrHandler\<close> (spelled \<^verbatim>\<open>AddServerErrHanlder\<close> in src/cobalt.go); they
  are modelled once, with two closures for \<^verbatim>\<open>addroute\<close>.

  Go functions that change what a pointer refers to become functions that take the old
  state and return the new one; a panic is a result of a call, not an exception of the
  logic; the loops over filter lists are recursive functions over the lists.
\<close>

section \<open>Values, the response writer and the coder\<close>

text \<open>
  The Go type \<^verbatim>\<open>interface{}\<close>: either the nil interface or a dynamic value.
  The type of the dynamic values is a parameter of the whole development.
\<close>

datatype 'v iface = nil | Val 'v

text \<open>
  A call of a Go function either returns or panics. The panic value is kept as the text
  that \<^verbatim>\<open>%v\<close> prints for it; \<^verbatim>\<open>panic(nil)\<close> is not modelled.
\<close>

datatype 'a outcome = Returned 'a | Panicked string

text \<open>
  \<^verbatim>\<open>http.ResponseWriter\<close> is an interface implemented outside the repository
  (by net/http, or by httptest.ResponseRecorder in the tests). What the code does to it
  is the sequence of calls it makes on it, so the response is that sequence, oldest call
  first: \<^verbatim>\<open>Header().Set(k, v)\<close>, \<^verbatim>\<open>WriteHeader(n)\<close> and
  \<^verbatim>\<open>Write(bytes)\<close>. Byte strings are \<open>string\<close>; a Go \<^verbatim>\<open>int\<close> is an
  \<open>int\<close> (the code compares it with 0 and prints it, and does no arithmetic on it).
  Header keys are kept as the code writes them (net/http's canonical spelling of a key is
  not modelled).
\<close>

datatype rw_call = HeaderSet string string | WriteHeader int | Write string

text \<open>The value the header map holds for a key after a sequence of calls.\<close>

fun header_value :: "rw_call list \<Rightarrow> string \<Rightarrow> string option" where
  "header_value [] k = None"
| "header_value (HeaderSet k' v # cs) k =
     (case header_value cs k of
        Some v' \<Rightarrow> Some v'
      | None \<Rightarrow> if k' = k then Some v else None)"
| "header_value (WriteHeader n # cs) k = header_value cs k"
| "header_value (Write b # cs) k = header_value cs k"

text \<open>
  The \<^verbatim>\<open>Coder\<close> interface of cobalt.go. \<^verbatim>\<open>Encode(w, v)\<close> writes to \<open>w\<close>
  (an \<^verbatim>\<open>io.Writer\<close>: it can only call \<^verbatim>\<open>Write\<close>) and then returns an error
  (\<open>None\<close> is the nil error) or panics: its model gives the chunks written and how the
  call ended. \<^verbatim>\<open>Decode\<close> is used by no operation modelled here.
\<close>

record 'v Coder =
  Encode :: "'v iface \<Rightarrow> string list \<times> string option outcome"
  ContentType :: string

section \<open>The request context (context.go)\<close>

record Request =
  Method :: string
  RequestURI :: string
  RemoteAddr :: string

text \<open>
  A Go map is a reference to a map object. \<^verbatim>\<open>NewContext\<close> makes a new object for
  \<^verbatim>\<open>data\<close> on every call, and whether two contexts can see each other's data depends
  on that, so the map objects live in a store (the list of all map objects made so far,
  a reference being an index into it) and the field \<open>data\<close> holds a reference;
  \<open>None\<close> is the nil map. \<^verbatim>\<open>params\<close> is only ever read, so it is held by value;
  \<open>None\<close> is again the nil map.
\<close>

type_synonym 'v store = "(string \<rightharpoonup> 'v iface) list"

record 'v Context =
  ID :: string
  Response :: "rw_call list"
  Request :: Request
  data :: "nat option"
  params :: "(string \<rightharpoonup> string) option"
  coder :: "'v Coder"
  status :: int

text \<open>
  What a handler or filter sees and can change: the store and the context of the request
  it serves (the Go code hands it the pointer \<^verbatim>\<open>ctx\<close>).
\<close>

record 'v world =
  heap :: "'v store"
  ctx :: "'v Context"

text \<open>
  \<^verbatim>\<open>NewContext(req, resp, p, coder)\<close>. The package uuid is not part of the sources:
  the text of the identifier it generates for this call is the parameter \<open>uuid\<close>.
  \<^verbatim>\<open>make(map[string]interface{})\<close> adds a new, empty map object to the store.
\<close>

definition NewContext ::
  "'v store \<Rightarrow> string \<Rightarrow> Request \<Rightarrow> rw_call list \<Rightarrow> (string \<rightharpoonup> string) option \<Rightarrow> 'v Coder
     \<Rightarrow> 'v world" where
  "NewContext hp uuid req resp p cdr =
     \<lparr>heap = hp @ [Map.empty],
      ctx = \<lparr>ID = uuid, Response = resp, Request = req, data = Some (length hp),
             params = p, coder = cdr, status = 0\<rparr>\<rparr>"

text \<open>
  \<^verbatim>\<open>RouteValue\<close>: indexing a Go map, nil or not, with a key it does not hold gives
  \<^verbatim>\<open>ok == false\<close>; no branch of the function panics.
\<close>

definition RouteValue :: "'v Context \<Rightarrow> string \<Rightarrow> string" where
  "RouteValue c key =
     (case params c of
        None \<Rightarrow> ''''
      | Some m \<Rightarrow> (case m key of None \<Rightarrow> '''' | Some v \<Rightarrow> v))"


text \<open>
  \<^verbatim>\<open>GetData\<close> and \<^verbatim>\<open>SetData\<close>. Reading a nil map finds nothing; assigning to an
  entry of a nil map panics. A reference that points outside the store does not occur
  (every reference comes from \<open>NewContext\<close>); reading through one finds nothing and
  writing through one changes nothing.
\<close>

definition GetData :: "'v store \<Rightarrow> 'v Context \<Rightarrow> string \<Rightarrow> 'v iface" where
  "GetData hp c key =
     (case data c of
        None \<Rightarrow> nil
      | Some a \<Rightarrow>
          if a < length hp
          then (case (hp ! a) key of None \<Rightarrow> nil | Some d \<Rightarrow> d)
          else nil)"

definition SetData :: "'v store \<Rightarrow> 'v Context \<Rightarrow> string \<Rightarrow> 'v iface \<Rightarrow> 'v store outcome" where
  "SetData hp c key v =
     (case data c of
        None \<Rightarrow> Panicked ''assignment to entry in nil map''
      | Some a \<Rightarrow> Returned (if a < length hp then hp[a := (hp ! a)(key \<mapsto> v)] else hp))"

text \<open>\<^verbatim>\<open>fmt.Sprintf("%d", n)\<close>: the decimal digits, with a minus sign below 0.\<close>

function show_nat :: "nat \<Rightarrow> string" where
  "show_nat n =
     (if n < 10 then [''0123456789'' ! n]
      else show_nat (n div 10) @ [''0123456789'' ! (n mod 10)])"
  by pat_completeness auto
termination
  by (relation "measure (\<lambda>n. n)") auto

definition Sprintf_d :: "int \<Rightarrow> string" where
  "Sprintf_d i = (if i < 0 then CHR ''-'' # show_nat (nat (- i)) else show_nat (nat i))"

definition CacheControlHeader :: string where
  "CacheControlHeader = ''Cache-control''"

definition StatusOK :: int where
  "StatusOK = 200"

text \<open>
  \<^verbatim>\<open>serveEncoded(val, status, seconds)\<close>. The error \<^verbatim>\<open>Encode\<close> returns is
  dropped by the code. When \<^verbatim>\<open>Encode\<close> panics the assignment to
  \<^verbatim>\<open>c.status\<close> is not reached.
\<close>

definition serveEncoded :: "'v Context \<Rightarrow> 'v iface \<Rightarrow> int \<Rightarrow> int \<Rightarrow> 'v Context \<times> unit outcome" where
  "serveEncoded c val st seconds =
     (let st' = (if st = 0 then StatusOK else st);
          r1 = Response c @ [HeaderSet ''Content-Type'' (ContentType (coder c))];
          r2 = (if seconds > 0
                then r1 @ [HeaderSet CacheControlHeader
                             (''private, must-revalidate, max-age='' @ Sprintf_d seconds)]
                else r1);
          r3 = r2 @ [WriteHeader st']
      in case val of
           nil \<Rightarrow> (c\<lparr>Response := r3, status := st'\<rparr>, Returned ())
         | Val x \<Rightarrow>
             (case Encode (coder c) val of
                (chunks, Returned err) \<Rightarrow>
                  (c\<lparr>Response := r3 @ map Write chunks, status := st'\<rparr>, Returned ())
              | (chunks, Panicked pv) \<Rightarrow>
                  (c\<lparr>Response := r3 @ map Write chunks\<rparr>, Panicked pv)))"

definition Error :: "'v Context \<Rightarrow> 'v iface \<Rightarrow> int \<Rightarrow> 'v Context \<times> unit outcome" where
  "Error c body st = serveEncoded c body 0 st"

definition Serve :: "'v Context \<Rightarrow> 'v iface \<Rightarrow> 'v Context \<times> unit outcome" where
  "Serve c val = serveEncoded c val StatusOK 0"

definition ServeWithStatus :: "'v Context \<Rightarrow> 'v iface \<Rightarrow> int \<Rightarrow> 'v Context \<times> unit outcome" where
  "ServeWithStatus c val st = serveEncoded c val st 0"

definition ServeStatus :: "'v Context \<Rightarrow> int \<Rightarrow> 'v Context" where
  "ServeStatus c st =
     (let st' = (if st = 0 then StatusOK else st);
          c' = c\<lparr>status := st'\<rparr>
      in c'\<lparr>Response := Response c' @ [WriteHeader (status c')]\<rparr>)"

definition ServeCachedWithStatus ::
  "'v Context \<Rightarrow> 'v iface \<Rightarrow> int \<Rightarrow> int \<Rightarrow> 'v Context \<times> unit outcome" where
  "ServeCachedWithStatus c val st seconds = serveEncoded c val st seconds"

definition ServeResponse :: "'v Context \<Rightarrow> string \<Rightarrow> int \<Rightarrow> string \<Rightarrow> 'v Context" where
  "ServeResponse c resp st contentType =
     (let r1 = (if contentType \<noteq> ''''
                then Response c @ [HeaderSet ''Content-Type'' contentType]
                else Response c)
      in c\<lparr>Response := r1 @ [WriteHeader st] @ [Write resp]\<rparr>)"

section \<open>The dispatcher (cobalt.go)\<close>

text \<open>
  A handler and a filter are Go function values called with the pointer \<^verbatim>\<open>ctx\<close>:
  they read and change the world, and return (a filter: whether to keep going) or panic.
  The world a panicking call leaves behind is the one at the panic. A function value can
  be nil (the tests pass \<^verbatim>\<open>nil\<close> as a route filter), hence \<open>option\<close>; calling
  nil panics.
\<close>

type_synonym 'v Handler = "'v world \<Rightarrow> 'v world \<times> unit outcome"

type_synonym 'v FilterHandler = "'v world \<Rightarrow> 'v world \<times> bool outcome"

definition nil_call :: string where
  "nil_call = ''runtime error: invalid memory address or nil pointer dereference''"

fun call_filter :: "'v FilterHandler option \<Rightarrow> 'v world \<Rightarrow> 'v world \<times> bool outcome" where
  "call_filter None w = (w, Panicked nil_call)"
| "call_filter (Some f) w = f w"

fun call_handler :: "'v Handler option \<Rightarrow> 'v world \<Rightarrow> 'v world \<times> unit outcome" where
  "call_handler None w = (w, Panicked nil_call)"
| "call_handler (Some f) w = f w"

text \<open>The types \<^verbatim>\<open>route\<close> and \<^verbatim>\<open>Group\<close>.\<close>

record 'v route =
  route_path :: string
  route_verb :: string
  route_h :: "'v Handler option"
  route_filters :: "'v FilterHandler option list"

record 'v Group =
  g_prefilters :: "'v FilterHandler option list"
  g_postfilters :: "'v Handler option list"
  routes :: "'v route list"

text \<open>
  The function values the dispatcher hands to the router, as data: the code of the
  function literal and the variables it captured. \<open>Route_closure h filters\<close> is the
  \<^verbatim>\<open>f\<close> that \<^verbatim>\<open>addroute\<close> builds; \<open>Group_closure g route\<close> is the \<^verbatim>\<open>f\<close> that
  \<^verbatim>\<open>AddGroup\<close> builds, \<open>route\<close> being the value the captured variable
  \<^verbatim>\<open>route\<close> holds when the closure runs; \<open>NotFound_closure h\<close> is the \<^verbatim>\<open>t\<close> of
  \<^verbatim>\<open>AddNotFoundHandler\<close>. All of them also capture the pointer \<^verbatim>\<open>c\<close> and read the
  dispatcher's fields when they run: the dispatcher is an argument of their
  interpretation below. A group is taken as it is when \<^verbatim>\<open>AddGroup\<close> is called
  (changes made to it afterwards through the pointer \<^verbatim>\<open>g\<close> are not modelled).
\<close>

datatype 'v closure =
    Route_closure "'v Handler option" "'v FilterHandler option list"
  | Group_closure "'v Group" "'v route"

datatype 'v nf_closure = NotFound_closure "'v Handler option"

text \<open>
  Modelled from the spec: the router (the packages httptreemux and httprouter, whose
  files are not among the sources). Only what the dispatcher does to it is modelled:
  \<^verbatim>\<open>Handle(method, path, f)\<close> records a registration, and the field
  \<^verbatim>\<open>NotFoundHandler\<close> (\<^verbatim>\<open>NotFound\<close> in httprouter) holds the function to call when no
  registration matches. How a request is matched against the registrations is the
  router's business and is not modelled; \<^verbatim>\<open>ServeHTTP\<close>, which only passes the request
  on to the router, and \<^verbatim>\<open>Run\<close>, which starts the server, are not modelled either.
\<close>

record 'v Router =
  handlers :: "(string \<times> string \<times> 'v closure) list"
  NotFoundHandler :: "'v nf_closure option"

definition Handle :: "'v Router \<Rightarrow> string \<Rightarrow> string \<Rightarrow> 'v closure \<Rightarrow> 'v Router" where
  "Handle rt verb path f = rt\<lparr>handlers := handlers rt @ [(verb, path, f)]\<rparr>"

record 'v Cobalt =
  router :: "'v Router"
  prefilters :: "'v FilterHandler option list"
  postfilters :: "'v Handler option list"
  serverError :: "'v Handler option"
  Cobalt_coder :: "'v Coder"

definition GetMethod :: string where "GetMethod = ''GET''"

definition PostMethod :: string where "PostMethod = ''POST''"

definition PutMethod :: string where "PutMethod = ''PUT''"

definition DeleteMethod :: string where "DeleteMethod = ''DELETE''"

definition OptionsMethod :: string where "OptionsMethod = ''OPTIONS''"

definition HeadMethod :: string where "HeadMethod = ''HEAD''"

definition New :: "'v Coder \<Rightarrow> 'v Cobalt" where
  "New cdr =
     \<lparr>router = \<lparr>handlers = [], NotFoundHandler = None\<rparr>, prefilters = [], postfilters = [],
      serverError = None, Cobalt_coder = cdr\<rparr>"



definition AddServerErrHandler :: "'v Cobalt \<Rightarrow> 'v Handler option \<Rightarrow> 'v Cobalt" where
  "AddServerErrHandler c h = c\<lparr>serverError := h\<rparr>"


definition addroute ::
  "'v Cobalt \<Rightarrow> string \<Rightarrow> string \<Rightarrow> 'v Handler option \<Rightarrow> 'v FilterHandler option list \<Rightarrow> 'v Cobalt" where
  "addroute c verb path h filters =
     c\<lparr>router := Handle (router c) verb path (Route_closure h filters)\<rparr>"

definition Get ::
  "'v Cobalt \<Rightarrow> string \<Rightarrow> 'v Handler option \<Rightarrow> 'v FilterHandler option list \<Rightarrow> 'v Cobalt" where
  "Get c path h f = addroute c GetMethod path h f"

definition Post ::
  "'v Cobalt \<Rightarrow> string \<Rightarrow> 'v Handler option \<Rightarrow> 'v FilterHandler option list \<Rightarrow> 'v Cobalt" where
  "Post c path h f = addroute c PostMethod path h f"

definition Put ::
  "'v Cobalt \<Rightarrow> string \<Rightarrow> 'v Handler option \<Rightarrow> 'v FilterHandler option list \<Rightarrow> 'v Cobalt" where
  "Put c path h f = addroute c PutMethod path h f"

definition Delete ::
  "'v Cobalt \<Rightarrow> string \<Rightarrow> 'v Handler option \<Rightarrow> 'v FilterHandler option list \<Rightarrow> 'v Cobalt" where
  "Delete c path h f = addroute c DeleteMethod path h f"

definition Options ::
  "'v Cobalt \<Rightarrow> string \<Rightarrow> 'v Handler option \<Rightarrow> 'v FilterHandler option list \<Rightarrow> 'v Cobalt" where
  "Options c path h f = addroute c OptionsMethod path h f"

definition Head ::
  "'v Cobalt \<Rightarrow> string \<Rightarrow> 'v Handler option \<Rightarrow> 'v FilterHandler option list \<Rightarrow> 'v Cobalt" where
  "Head c path h f = addroute c HeadMethod path h f"

text \<open>The methods of \<^verbatim>\<open>Group\<close>.\<close>

definition Group_AddPrefilter :: "'v Group \<Rightarrow> 'v FilterHandler option \<Rightarrow> 'v Group" where
  "Group_AddPrefilter g h = g\<lparr>g_prefilters := g_prefilters g @ [h]\<rparr>"

definition Group_AddPostfilter :: "'v Group \<Rightarrow> 'v Handler option \<Rightarrow> 'v Group" where
  "Group_AddPostfilter g h = g\<lparr>g_postfilters := g_postfilters g @ [h]\<rparr>"

definition Group_addRoute ::
  "'v Group \<Rightarrow> string \<Rightarrow> string \<Rightarrow> 'v Handler option \<Rightarrow> 'v FilterHandler option list \<Rightarrow> 'v Group" where
  "Group_addRoute g verb routePath h f =
     g\<lparr>routes := routes g @
          [\<lparr>route_path = routePath, route_verb = verb, route_h = h, route_filters = f\<rparr>]\<rparr>"

definition Group_Get ::
  "'v Group \<Rightarrow> string \<Rightarrow> 'v Handler option \<Rightarrow> 'v FilterHandler option list \<Rightarrow> 'v Group" where
  "Group_Get g routePath h f = Group_addRoute g GetMethod routePath h f"

definition Group_Post ::
  "'v Group \<Rightarrow> string \<Rightarrow> 'v Handler option \<Rightarrow> 'v FilterHandler option list \<Rightarrow> 'v Group" where
  "Group_Post g routePath h f = Group_addRoute g PostMethod routePath h f"

definition Group_Put ::
  "'v Group \<Rightarrow> string \<Rightarrow> 'v Handler option \<Rightarrow> 'v FilterHandler option list \<Rightarrow> 'v Group" where
  "Group_Put g routePath h f = Group_addRoute g PutMethod routePath h f"

definition Group_Delete ::
  "'v Group \<Rightarrow> string \<Rightarrow> 'v Handler option \<Rightarrow> 'v FilterHandler option list \<Rightarrow> 'v Group" where
  "Group_Delete g routePath h f = Group_addRoute g DeleteMethod routePath h f"

definition Group_Options ::
  "'v Group \<Rightarrow> string \<Rightarrow> 'v Handler option \<Rightarrow> 'v FilterHandler option list \<Rightarrow> 'v Group" where
  "Group_Options g routePath h f = Group_addRoute g OptionsMethod routePath h f"

definition Group_Head ::
  "'v Group \<Rightarrow> string \<Rightarrow> 'v Handler option \<Rightarrow> 'v FilterHandler option list \<Rightarrow> 'v Group" where
  "Group_Head g routePath h f = Group_addRoute g HeadMethod routePath h f"

text \<open>The zero value \<^verbatim>\<open>Group{}\<close>.\<close>

definition empty_Group :: "'v Group" where
  "empty_Group = \<lparr>g_prefilters = [], g_postfilters = [], routes = []\<rparr>"

text \<open>
  \<^verbatim>\<open>AddGroup\<close>. The loop is
  \<^verbatim>\<open>for _, route := range g.routes { f := func(...) {... route.filters ... route.h(ctx) ...}; c.router.Handle(route.verb, route.path, f) }\<close>.
  The code is written for Go before 1.22 (it imports the packages of its own repository
  by their GOPATH paths and declares no module), where the range clause declares one
  variable \<^verbatim>\<open>route\<close> for the whole loop, every iteration assigns to it, and a function
  literal captures the variable, not the value it holds at the time. \<^verbatim>\<open>Handle\<close> is called inside the iteration, so each registration gets the verb
  and the path of its own element. The body of \<^verbatim>\<open>f\<close> runs later, when a request
  comes in and the loop is over: then the variable holds the last element of
  \<^verbatim>\<open>g.routes\<close>, for every one of the closures.
\<close>

definition AddGroup :: "'v Cobalt \<Rightarrow> 'v Group \<Rightarrow> 'v Cobalt" where
  "AddGroup c g =
     c\<lparr>router :=
         foldl (\<lambda>rt r. Handle rt (route_verb r) (route_path r) (Group_closure g (last (routes g))))
           (router c) (routes g)\<rparr>"

subsection \<open>What a closure does with a request\<close>

text \<open>
  The lines the closure writes to the log, by format string:
  \<open>Started\<close> is \<^verbatim>\<open>"%s =>  %s %s - %s"\<close>, \<open>PanicError\<close> is
  \<^verbatim>\<open>"cobalt: Panic Error => %v\n"\<close>, \<open>PanicRecovering\<close> is
  \<^verbatim>\<open>"cobalt: Panic, Recovering"\<close>, \<open>StackDump\<close> is the buffer of
  \<^verbatim>\<open>runtime.Stack\<close> (its text is not modelled), and \<open>Complete\<close> is the completion
  record \<^verbatim>\<open>"%s => complete: %d %s %s - %s\n"\<close> with ctx.ID, ctx.status, req.Method,
  req.RequestURI and req.RemoteAddr. The log holds only what the closure itself writes.
\<close>

datatype log_record =
    Started string string string string
  | PanicError string
  | PanicRecovering
  | StackDump
  | Complete string int string string string

fun is_Complete :: "log_record \<Rightarrow> bool" where
  "is_Complete (Complete i s m u a) = True"
| "is_Complete (Started i m u a) = False"
| "is_Complete (PanicError v) = False"
| "is_Complete PanicRecovering = False"
| "is_Complete StackDump = False"

text \<open>
  The record of the calls a closure makes on function values, in order: who was called,
  the world it was called in, and how the call ended. The Go code keeps no such record;
  it is kept here to state which functions run, in which order and on what.
\<close>

datatype callee =
    GlobalPre nat
  | GroupPre nat
  | RouteFilter nat
  | RouteHandler
  | GroupPost nat
  | GlobalPost nat
  | ServerError
  | NotFound

datatype ret_val = Ret_bool bool | Ret_unit | Ret_panic string

datatype 'v call = Call (who: callee) (arg: "'v world") (ret: ret_val)

fun ret_of_handler :: "unit outcome \<Rightarrow> ret_val" where
  "ret_of_handler (Returned u) = Ret_unit"
| "ret_of_handler (Panicked pv) = Ret_panic pv"

text \<open>
  How the body of a closure ends: it runs to its end, a filter makes it return early, or
  a panic unwinds it.
\<close>

datatype flow = Continue | Halt | Panics string

text \<open>
  \<^verbatim>\<open>for _, pf := range fs { if keepGoing := pf(ctx); !keepGoing { return } }\<close>; the
  number \<open>i\<close> only names the calls in the record.
\<close>

fun run_filters ::
  "(nat \<Rightarrow> callee) \<Rightarrow> nat \<Rightarrow> 'v FilterHandler option list \<Rightarrow> 'v world \<Rightarrow> 'v call list
     \<Rightarrow> 'v world \<times> 'v call list \<times> flow" where
  "run_filters tg i [] w tr = (w, tr, Continue)"
| "run_filters tg i (pf # fs) w tr =
     (case call_filter pf w of
        (w', Returned keepGoing) \<Rightarrow>
          if \<not> keepGoing then (w', tr @ [Call (tg i) w (Ret_bool False)], Halt)
          else run_filters tg (Suc i) fs w' (tr @ [Call (tg i) w (Ret_bool True)])
      | (w', Panicked pv) \<Rightarrow> (w', tr @ [Call (tg i) w (Ret_panic pv)], Panics pv))"

text \<open>\<^verbatim>\<open>for _, f := range fs { f(ctx) }\<close>.\<close>

fun run_handlers ::
  "(nat \<Rightarrow> callee) \<Rightarrow> nat \<Rightarrow> 'v Handler option list \<Rightarrow> 'v world \<Rightarrow> 'v call list
     \<Rightarrow> 'v world \<times> 'v call list \<times> flow" where
  "run_handlers tg i [] w tr = (w, tr, Continue)"
| "run_handlers tg i (f # fs) w tr =
     (case call_handler f w of
        (w', Returned u) \<Rightarrow> run_handlers tg (Suc i) fs w' (tr @ [Call (tg i) w Ret_unit])
      | (w', Panicked pv) \<Rightarrow> (w', tr @ [Call (tg i) w (Ret_panic pv)], Panics pv))"

text \<open>
  The statements of \<^verbatim>\<open>addroute\<close>'s closure after the first log line: the global
  pre-filters, the route's filters, the handler, the global post-filters.
\<close>

definition addroute_body ::
  "'v Cobalt \<Rightarrow> 'v Handler option \<Rightarrow> 'v FilterHandler option list \<Rightarrow> 'v world
     \<Rightarrow> 'v world \<times> 'v call list \<times> flow" where
  "addroute_body c h filters w =
     (case run_filters GlobalPre 0 (prefilters c) w [] of
        (w1, t1, Continue) \<Rightarrow>
          (case run_filters RouteFilter 0 filters w1 t1 of
             (w2, t2, Continue) \<Rightarrow>
               (case call_handler h w2 of
                  (w3, Returned u) \<Rightarrow>
                    run_handlers GlobalPost 0 (postfilters c) w3 (t2 @ [Call RouteHandler w2 Ret_unit])
                | (w3, Panicked pv) \<Rightarrow>
                    (w3, t2 @ [Call RouteHandler w2 (Ret_panic pv)], Panics pv))
           | (w2, t2, Halt) \<Rightarrow> (w2, t2, Halt)
           | (w2, t2, Panics pv) \<Rightarrow> (w2, t2, Panics pv))
      | (w1, t1, Halt) \<Rightarrow> (w1, t1, Halt)
      | (w1, t1, Panics pv) \<Rightarrow> (w1, t1, Panics pv))"

text \<open>The same for the closure of \<^verbatim>\<open>AddGroup\<close>, with the group's two layers.\<close>

definition AddGroup_body ::
  "'v Cobalt \<Rightarrow> 'v Group \<Rightarrow> 'v route \<Rightarrow> 'v world \<Rightarrow> 'v world \<times> 'v call list \<times> flow" where
  "AddGroup_body c g route w =
     (case run_filters GlobalPre 0 (prefilters c) w [] of
        (w1, t1, Continue) \<Rightarrow>
          (case run_filters GroupPre 0 (g_prefilters g) w1 t1 of
             (w2, t2, Continue) \<Rightarrow>
               (case run_filters RouteFilter 0 (route_filters route) w2 t2 of
                  (w3, t3, Continue) \<Rightarrow>
                    (case call_handler (route_h route) w3 of
                       (w4, Returned u) \<Rightarrow>
                         (case run_handlers GroupPost 0 (g_postfilters g) w4
                                 (t3 @ [Call RouteHandler w3 Ret_unit]) of
                            (w5, t5, Continue) \<Rightarrow>
                              run_handlers GlobalPost 0 (postfilters c) w5 t5
                          | (w5, t5, Halt) \<Rightarrow> (w5, t5, Halt)
                          | (w5, t5, Panics pv) \<Rightarrow> (w5, t5, Panics pv))
                     | (w4, Panicked pv) \<Rightarrow>
                         (w4, t3 @ [Call RouteHandler w3 (Ret_panic pv)], Panics pv))
                | (w3, t3, Halt) \<Rightarrow> (w3, t3, Halt)
                | (w3, t3, Panics pv) \<Rightarrow> (w3, t3, Panics pv))
           | (w2, t2, Halt) \<Rightarrow> (w2, t2, Halt)
           | (w2, t2, Panics pv) \<Rightarrow> (w2, t2, Panics pv))
      | (w1, t1, Halt) \<Rightarrow> (w1, t1, Halt)
      | (w1, t1, Panics pv) \<Rightarrow> (w1, t1, Panics pv))"

text \<open>
  What a closure leaves behind: the world, the lines it logged, the calls it made, and
  the panic that leaves the closure, if one does.
\<close>

record 'v result =
  res_world :: "'v world"
  res_log :: "log_record list"
  res_calls :: "'v call list"
  res_panic :: "string option"

definition completion :: "'v world \<Rightarrow> Request \<Rightarrow> log_record" where
  "completion w req =
     Complete (ID (ctx w)) (status (ctx w)) (Method req) (RequestURI req) (RemoteAddr req)"

text \<open>
  The deferred function, the same text in all three closures. \<open>lg\<close> is the log so
  far and the triple is how the body ended. After a panic with
  \<^verbatim>\<open>c.serverError != nil\<close> the handler is called and the function returns; a panic of
  that handler is not recovered, since it happens inside the deferred function. On every
  other path the last statement writes the completion record.
\<close>

definition deferred ::
  "'v Cobalt \<Rightarrow> Request \<Rightarrow> log_record list \<Rightarrow> 'v world \<times> 'v call list \<times> flow \<Rightarrow> 'v result" where
  "deferred c req lg r =
     (case r of
        (w, tr, Panics pv) \<Rightarrow>
          (let lg1 = lg @ [PanicError pv, PanicRecovering, StackDump]
           in case serverError c of
                Some se \<Rightarrow>
                  (case se w of
                     (w', oc) \<Rightarrow>
                       \<lparr>res_world = w', res_log = lg1 @ [PanicRecovering],
                        res_calls = tr @ [Call ServerError w (ret_of_handler oc)],
                        res_panic = (case oc of Panicked pv' \<Rightarrow> Some pv' | Returned u \<Rightarrow> None)\<rparr>)
              | None \<Rightarrow>
                  \<lparr>res_world = w, res_log = lg1 @ [completion w req], res_calls = tr,
                   res_panic = None\<rparr>)
      | (w, tr, Continue) \<Rightarrow>
          \<lparr>res_world = w, res_log = lg @ [completion w req], res_calls = tr, res_panic = None\<rparr>
      | (w, tr, Halt) \<Rightarrow>
          \<lparr>res_world = w, res_log = lg @ [completion w req], res_calls = tr, res_panic = None\<rparr>)"

definition started :: "'v world \<Rightarrow> Request \<Rightarrow> log_record" where
  "started w req = Started (ID (ctx w)) (Method req) (RequestURI req) (RemoteAddr req)"

text \<open>
  The closure \<^verbatim>\<open>f\<close> of \<^verbatim>\<open>addroute\<close> in the file that imports httptreemux (the one
  that also has \<^verbatim>\<open>AddGroup\<close>). Its arguments after the captured values: the store, the
  identifier the uuid package generates, and the closure's own \<^verbatim>\<open>w\<close>, \<^verbatim>\<open>req\<close> and
  \<^verbatim>\<open>p\<close>.
\<close>

definition addroute_f_treemux ::
  "'v Cobalt \<Rightarrow> 'v Handler option \<Rightarrow> 'v FilterHandler option list \<Rightarrow> 'v store \<Rightarrow> string
     \<Rightarrow> rw_call list \<Rightarrow> Request \<Rightarrow> (string \<rightharpoonup> string) option \<Rightarrow> 'v result" where
  "addroute_f_treemux c h filters hp uuid resp req p =
     (let w = NewContext hp uuid req resp p (Cobalt_coder c)
      in deferred c req [started w req] (addroute_body c h filters w))"

text \<open>
  The closure \<^verbatim>\<open>f\<close> of \<^verbatim>\<open>addroute\<close> in src/cobalt.go (the file that imports
  httprouter): the same, with \<^verbatim>\<open>w.Header().Set("X-Request-Id", ctx.ID)\<close> after the first
  log line. \<^verbatim>\<open>w\<close> is the writer the context holds as \<^verbatim>\<open>Response\<close>. The parameter
  \<^verbatim>\<open>p\<close> has the router's type \<^verbatim>\<open>Params\<close> in this file; it is handed to
  \<^verbatim>\<open>NewContext\<close> as it is, so it is the parameter map here as well.
\<close>

definition addroute_f_httprouter ::
  "'v Cobalt \<Rightarrow> 'v Handler option \<Rightarrow> 'v FilterHandler option list \<Rightarrow> 'v store \<Rightarrow> string
     \<Rightarrow> rw_call list \<Rightarrow> Request \<Rightarrow> (string \<rightharpoonup> string) option \<Rightarrow> 'v result" where
  "addroute_f_httprouter c h filters hp uuid resp req p =
     (let w = NewContext hp uuid req resp p (Cobalt_coder c);
          w' = w\<lparr>ctx := (ctx w)\<lparr>Response :=
                  Response (ctx w) @ [HeaderSet ''X-Request-Id'' (ID (ctx w))]\<rparr>\<rparr>
      in deferred c req [started w req] (addroute_body c h filters w'))"

text \<open>The closure \<^verbatim>\<open>f\<close> of \<^verbatim>\<open>AddGroup\<close>.\<close>

definition AddGroup_f ::
  "'v Cobalt \<Rightarrow> 'v Group \<Rightarrow> 'v route \<Rightarrow> 'v store \<Rightarrow> string
     \<Rightarrow> rw_call list \<Rightarrow> Request \<Rightarrow> (string \<rightharpoonup> string) option \<Rightarrow> 'v result" where
  "AddGroup_f c g route hp uuid resp req p =
     (let w = NewContext hp uuid req resp p (Cobalt_coder c)
      in deferred c req [started w req] (AddGroup_body c g route w))"

text \<open>
  The closure \<^verbatim>\<open>t\<close> of \<^verbatim>\<open>AddNotFoundHandler\<close>: a context with the nil parameter
  map, and the call of \<^verbatim>\<open>h\<close>. Nothing is deferred and nothing is logged; a panic of
  \<^verbatim>\<open>h\<close> leaves the closure.
\<close>

definition AddNotFoundHandler_t ::
  "'v Cobalt \<Rightarrow> 'v Handler option \<Rightarrow> 'v store \<Rightarrow> string \<Rightarrow> rw_call list \<Rightarrow> Request \<Rightarrow> 'v result" where
  "AddNotFoundHandler_t c h hp uuid resp req =
     (let w = NewContext hp uuid req resp None (Cobalt_coder c)
      in case call_handler h w of
           (w', oc) \<Rightarrow>
             \<lparr>res_world = w', res_log = [], res_calls = [Call NotFound w (ret_of_handler oc)],
              res_panic = (case oc of Panicked pv \<Rightarrow> Some pv | Returned u \<Rightarrow> None)\<rparr>)"

text \<open>
  What the router does when it calls a registered function value of the file with
  groups: run the closure with the dispatcher as it is at the time of the request.
\<close>

fun invoke ::
  "'v Cobalt \<Rightarrow> 'v closure \<Rightarrow> 'v store \<Rightarrow> string \<Rightarrow> rw_call list \<Rightarrow> Request
     \<Rightarrow> (string \<rightharpoonup> string) option \<Rightarrow> 'v result" where
  "invoke c (Route_closure h filters) hp uuid resp req p =
     addroute_f_treemux c h filters hp uuid resp req p"
| "invoke c (Group_closure g route) hp uuid resp req p =
     AddGroup_f c g route hp uuid resp req p"


text \<open>The order in which the functions of a route stand in the code of its closure.\<close>

definition addroute_order :: "'v Cobalt \<Rightarrow> 'v FilterHandler option list \<Rightarrow> callee list" where
  "addroute_order c filters =
     map GlobalPre [0..<length (prefilters c)] @ map RouteFilter [0..<length filters] @
     [RouteHandler] @ map GlobalPost [0..<length (postfilters c)]"

definition AddGroup_order :: "'v Cobalt \<Rightarrow> 'v Group \<Rightarrow> 'v route \<Rightarrow> callee list" where
  "AddGroup_order c g route =
     map GlobalPre [0..<length (prefilters c)] @ map GroupPre [0..<length (g_prefilters g)] @
     map RouteFilter [0..<length (route_filters route)] @ [RouteHandler] @
     map GroupPost [0..<length (g_postfilters g)] @ map GlobalPost [0..<length (postfilters c)]"

section \<open>A uniform view of the closure bodies\<close>

text \<open>
  The definitions of this section are not taken from the code: they are the vocabulary of
  the proofs. A closure body is a list of steps, each a callee and what calling it does;
  \<open>run_chain\<close> runs such a list the way the loops and the handler call of the code
  do, and the bodies above are shown below to be the chains of their steps.
\<close>

type_synonym 'v step = "callee \<times> ('v world \<Rightarrow> 'v world \<times> ret_val)"

fun ret_of_filter :: "bool outcome \<Rightarrow> ret_val" where
  "ret_of_filter (Returned b) = Ret_bool b"
| "ret_of_filter (Panicked pv) = Ret_panic pv"

definition filter_step :: "callee \<Rightarrow> 'v FilterHandler option \<Rightarrow> 'v step" where
  "filter_step t f = (t, \<lambda>w. case call_filter f w of (w', oc) \<Rightarrow> (w', ret_of_filter oc))"

definition handler_step :: "callee \<Rightarrow> 'v Handler option \<Rightarrow> 'v step" where
  "handler_step t f = (t, \<lambda>w. case call_handler f w of (w', oc) \<Rightarrow> (w', ret_of_handler oc))"

fun filter_steps :: "(nat \<Rightarrow> callee) \<Rightarrow> nat \<Rightarrow> 'v FilterHandler option list \<Rightarrow> 'v step list" where
  "filter_steps tg i [] = []"
| "filter_steps tg i (f # fs) = filter_step (tg i) f # filter_steps tg (Suc i) fs"

fun handler_steps :: "(nat \<Rightarrow> callee) \<Rightarrow> nat \<Rightarrow> 'v Handler option list \<Rightarrow> 'v step list" where
  "handler_steps tg i [] = []"
| "handler_steps tg i (f # fs) = handler_step (tg i) f # handler_steps tg (Suc i) fs"

fun run_chain :: "'v step list \<Rightarrow> 'v world \<Rightarrow> 'v world \<times> 'v call list \<times> flow" where
  "run_chain [] w = (w, [], Continue)"
| "run_chain (s # ss) w =
     (case snd s w of
        (w', r) \<Rightarrow>
          (case r of
             Ret_bool b \<Rightarrow>
               if b then (case run_chain ss w' of (w'', tr, fl) \<Rightarrow> (w'', Call (fst s) w r # tr, fl))
               else (w', [Call (fst s) w r], Halt)
           | Ret_unit \<Rightarrow> (case run_chain ss w' of (w'', tr, fl) \<Rightarrow> (w'', Call (fst s) w r # tr, fl))
           | Ret_panic pv \<Rightarrow> (w', [Call (fst s) w r], Panics pv)))"

definition addroute_steps :: "'v Cobalt \<Rightarrow> 'v Handler option \<Rightarrow> 'v FilterHandler option list \<Rightarrow> 'v step list" where
  "addroute_steps c h filters =
     filter_steps GlobalPre 0 (prefilters c) @ filter_steps RouteFilter 0 filters @
     [handler_step RouteHandler h] @ handler_steps GlobalPost 0 (postfilters c)"

definition AddGroup_steps :: "'v Cobalt \<Rightarrow> 'v Group \<Rightarrow> 'v route \<Rightarrow> 'v step list" where
  "AddGroup_steps c g route =
     filter_steps GlobalPre 0 (prefilters c) @ filter_steps GroupPre 0 (g_prefilters g) @
     filter_steps RouteFilter 0 (route_filters route) @ [handler_step RouteHandler (route_h route)] @
     handler_steps GroupPost 0 (g_postfilters g) @ handler_steps GlobalPost 0 (postfilters c)"

definition ok_ret :: "ret_val \<Rightarrow> bool" where
  "ok_ret r = (r = Ret_bool True \<or> r = Ret_unit)"

fun is_filter :: "callee \<Rightarrow> bool" where
  "is_filter (GlobalPre i) = True"
| "is_filter (GroupPre i) = True"
| "is_filter (RouteFilter i) = True"
| "is_filter RouteHandler = False"
| "is_filter (GroupPost i) = False"
| "is_filter (GlobalPost i) = False"
| "is_filter ServerError = False"
| "is_filter NotFound = False"

definition wf_step :: "'v step \<Rightarrow> bool" where
  "wf_step s = (is_filter (fst s) \<or> (\<forall>w b. snd (snd s w) \<noteq> Ret_bool b))"

text \<open>
  A context whose \<open>data\<close> refers to a map object of the store: what
  \<open>NewContext\<close> returns, and what stays so whatever is done to the store.
\<close>

definition live :: "'v store \<Rightarrow> 'v Context \<Rightarrow> bool" where
  "live hp c = (case data c of None \<Rightarrow> False | Some a \<Rightarrow> a < length hp)"

text \<open>
  A history of \<^verbatim>\<open>SetData\<close> calls, each on some context, run in order on a store,
  and the value the last call on the map object of a context and a key has set, if there
  was such a call.
\<close>

definition set_all :: "'v store \<Rightarrow> ('v Context \<times> string \<times> 'v iface) list \<Rightarrow> 'v store" where
  "set_all hp ops =
     foldl (\<lambda>h op. case op of (c, k, v) \<Rightarrow>
              (case SetData h c k v of Returned h' \<Rightarrow> h' | Panicked pv \<Rightarrow> h)) hp ops"

definition last_set ::
  "('v Context \<times> string \<times> 'v iface) list \<Rightarrow> 'v Context \<Rightarrow> string \<Rightarrow> 'v iface option" where
  "last_set ops c k =
     (case filter (\<lambda>op. data (fst op) = data c \<and> fst (snd op) = k) (rev ops) of
        [] \<Rightarrow> None
      | op # r \<Rightarrow> Some (snd (snd op)))"

section \<open>Values of the test file\<close>

text \<open>
  The \<^verbatim>\<open>JSONEncoder\<close> of cobalt_test.go, on values that are texts needing no
  escaping: json writes the text in double quotes and ends the line, in one
  \<^verbatim>\<open>Write\<close>. The request is the one \<^verbatim>\<open>newRequest("GET", "/", nil)\<close> builds.
\<close>

definition JSONEncoder :: "string Coder" where
  "JSONEncoder =
     \<lparr>Encode = (\<lambda>v. case v of
                       nil \<Rightarrow> ([''null'' @ [CHR 0x0A]], Returned None)
                     | Val s \<Rightarrow> ([CHR 0x22 # s @ [CHR 0x22, CHR 0x0A]], Returned None)),
      ContentType = ''application/json;charset=UTF-8''\<rparr>"

definition test_req :: Request where
  "test_req = \<lparr>Method = ''GET'', RequestURI = ''/'', RemoteAddr = []\<rparr>"

text \<open>
  Two requests one after the other: the world of the first context, and the world of a
  second context made in the store the first call left.
\<close>

definition test_world1 :: "string world" where
  "test_world1 = NewContext [] ''7f1c'' test_req [] None JSONEncoder"

definition test_world2 :: "string world" where
  "test_world2 = NewContext (heap test_world1) ''a2b0'' test_req [] None JSONEncoder"

definition test_ctx :: "string Context" where
  "test_ctx = ctx test_world1"



definition write_handler :: "string \<Rightarrow> string Handler" where
  "write_handler s w = (w\<lparr>ctx := (ctx w)\<lparr>Response := Response (ctx w) @ [Write s]\<rparr>\<rparr>, Returned ())"

definition panic_handler :: "string Handler" where
  "panic_handler w = (w, Panicked ''Panic Test'')"

definition se_handler :: "string Handler" where
  "se_handler w =
     (case ServeWithStatus (ctx w) (Val ''Internal Error'') 500 of
        (c', oc) \<Rightarrow> (w\<lparr>ctx := c'\<rparr>, oc))"

text \<open>
  \<^verbatim>\<open>c := New(&JSONEncoder{}); c.AddServerErrHandler(se); c.Get("/", func(ctx *Context) { panic("Panic Test") })\<close>
\<close>

definition test_server_error :: "string Cobalt" where
  "test_server_error =
     Get (AddServerErrHandler (New JSONEncoder) (Some se_handler)) ''/'' (Some panic_handler) []"



text \<open>
  \<^verbatim>\<open>g := &Group{}; g.Get("/a", a); g.Get("/b", b); c := New(&JSONEncoder{}); c.AddGroup(g)\<close>,
  where \<^verbatim>\<open>a\<close> writes "A" and \<^verbatim>\<open>b\<close> writes "B".
\<close>

definition test_group :: "string Group" where
  "test_group =
     Group_Get (Group_Get empty_Group ''/a'' (Some (write_handler ''A'')) [])
       ''/b'' (Some (write_handler ''B'')) []"

definition test_group_cobalt :: "string Cobalt" where
  "test_group_cobalt = AddGroup (New JSONEncoder) test_group"

section \<open>Evaluation of the helpers\<close>

declare show_nat.simps [simp del]

lemma show_nat_digit: "n < 10 \<Longrightarrow> show_nat n = [''0123456789'' ! n]"
  by (simp add: show_nat.simps)

lemma show_nat_step: "10 \<le> n \<Longrightarrow> show_nat n = show_nat (n div 10) @ [''0123456789'' ! (n mod 10)]"
  by (subst show_nat.simps) simp

lemma header_value_append:
  "header_value (xs @ ys) k =
     (case header_value ys k of Some v \<Rightarrow> Some v | None \<Rightarrow> header_value xs k)"
proof (induction xs)
  case Nil
  show ?case by (simp split: option.splits)
next
  case (Cons x xs)
  show ?case by (cases x) (simp_all add: Cons.IH split: option.splits)
qed

lemma header_value_map_Write: "header_value (map Write bs) k = None"
  by (induction bs) simp_all

section \<open>Properties of the scratch data\<close>

lemma live_length: "length hp' = length hp \<Longrightarrow> live hp' c = live hp c"
  by (simp add: live_def split: option.splits)

lemma SetData_live:
  "live hp c \<Longrightarrow> \<exists>hp'. SetData hp c k v = Returned hp' \<and> length hp' = length hp"
  by (auto simp: live_def SetData_def split: option.splits)

lemma GetData_SetData:
  assumes "live hp c" and "live hp c2" and "SetData hp c k v = Returned hp'"
  shows "GetData hp' c2 k' = (if data c2 = data c \<and> k' = k then v else GetData hp c2 k')"
  using assms by (auto simp: live_def SetData_def GetData_def nth_list_update split: option.splits if_splits)

lemma set_all_length:
  "\<forall>op\<in>set ops. live hp (fst op) \<Longrightarrow> length (set_all hp ops) = length hp"
proof (induction ops rule: rev_induct)
  case Nil
  show ?case by (simp add: set_all_def)
next
  case (snoc op ops)
  obtain c k v where op: "op = (c, k, v)" by (cases op) auto
  have len: "length (set_all hp ops) = length hp" using snoc by simp
  have "live (set_all hp ops) c" using snoc.prems op live_length[OF len] by simp
  then obtain h' where "SetData (set_all hp ops) c k v = Returned h'" "length h' = length (set_all hp ops)"
    using SetData_live by blast
  then show ?case using len op by (simp add: set_all_def)
qed

lemma GetData_set_all:
  assumes "live hp c" and "\<forall>op\<in>set ops. live hp (fst op)"
  shows "GetData (set_all hp ops) c k =
           (case last_set ops c k of None \<Rightarrow> GetData hp c k | Some v \<Rightarrow> v)"
  using assms(2)
proof (induction ops rule: rev_induct)
  case Nil
  show ?case by (simp add: set_all_def last_set_def)
next
  case (snoc op ops)
  obtain c1 k1 v1 where op: "op = (c1, k1, v1)" by (cases op) auto
  have all: "\<forall>op\<in>set ops. live hp (fst op)" using snoc.prems by simp
  have len: "length (set_all hp ops) = length hp" using set_all_length[OF all] .
  have l1: "live (set_all hp ops) c1" using snoc.prems op live_length[OF len] by simp
  have l: "live (set_all hp ops) c" using assms(1) live_length[OF len] by simp
  obtain h' where s: "SetData (set_all hp ops) c1 k1 v1 = Returned h'"
    using SetData_live[OF l1] by blast
  have sa: "set_all hp (ops @ [op]) = h'" using s op by (simp add: set_all_def)
  have g: "GetData h' c k = (if data c = data c1 \<and> k = k1 then v1 else GetData (set_all hp ops) c k)"
    using GetData_SetData[OF l1 l s] .
  show ?case
  proof (cases "data c1 = data c \<and> k1 = k")
    case True
    then show ?thesis using g sa op by (simp add: last_set_def)
  next
    case False
    then have "last_set (ops @ [op]) c k = last_set ops c k"
      using op by (auto simp: last_set_def)
    moreover have "GetData h' c k = GetData (set_all hp ops) c k" using g False by auto
    ultimately show ?thesis using snoc.IH[OF all] sa by simp
  qed
qed

section \<open>Properties of chains\<close>

lemma run_filters_chain:
  "run_filters tg i fs w tr =
     (case run_chain (filter_steps tg i fs) w of (w', new, fl) \<Rightarrow> (w', tr @ new, fl))"
proof (induction fs arbitrary: i w tr)
  case Nil
  show ?case by simp
next
  case (Cons f fs)
  show ?case
    by (simp add: Cons.IH filter_step_def split: prod.splits outcome.splits)
qed

lemma run_handlers_chain:
  "run_handlers tg i fs w tr =
     (case run_chain (handler_steps tg i fs) w of (w', new, fl) \<Rightarrow> (w', tr @ new, fl))"
proof (induction fs arbitrary: i w tr)
  case Nil
  show ?case by simp
next
  case (Cons f fs)
  show ?case
    by (simp add: Cons.IH handler_step_def split: prod.splits outcome.splits)
qed

lemma run_chain_append:
  "run_chain (s1 @ s2) w =
     (case run_chain s1 w of
        (w1, t1, Continue) \<Rightarrow> (case run_chain s2 w1 of (w2, t2, fl) \<Rightarrow> (w2, t1 @ t2, fl))
      | (w1, t1, Halt) \<Rightarrow> (w1, t1, Halt)
      | (w1, t1, Panics pv) \<Rightarrow> (w1, t1, Panics pv))"
proof (induction s1 arbitrary: w)
  case Nil
  show ?case by (simp split: prod.splits)
next
  case (Cons s ss)
  show ?case
    by (simp add: Cons.IH split: prod.splits ret_val.splits flow.splits)
qed

lemma run_chain_single:
  "run_chain [handler_step t h] w =
     (case call_handler h w of
        (w', Returned u) \<Rightarrow> (w', [Call t w Ret_unit], Continue)
      | (w', Panicked pv) \<Rightarrow> (w', [Call t w (Ret_panic pv)], Panics pv))"
  by (simp add: handler_step_def split: prod.splits outcome.splits)

lemma addroute_body_chain:
  "addroute_body c h filters w = run_chain (addroute_steps c h filters) w"
  unfolding addroute_body_def addroute_steps_def
  by (auto simp add: run_filters_chain run_handlers_chain run_chain_append handler_step_def
      split: prod.splits flow.splits outcome.splits)

lemma AddGroup_body_chain:
  "AddGroup_body c g route w = run_chain (AddGroup_steps c g route) w"
  unfolding AddGroup_body_def AddGroup_steps_def
  by (auto simp add: run_filters_chain run_handlers_chain run_chain_append handler_step_def
      split: prod.splits flow.splits outcome.splits)

lemma run_chain_length:
  "run_chain ss w = (w', tr, fl) \<Longrightarrow> length tr \<le> length ss"
  by (induction ss arbitrary: w w' tr fl)
     (auto split: prod.splits ret_val.splits if_splits)

lemma run_chain_who:
  "run_chain ss w = (w', tr, fl) \<Longrightarrow> map who tr = take (length tr) (map fst ss)"
  by (induction ss arbitrary: w w' tr fl)
     (auto split: prod.splits ret_val.splits if_splits)

lemma run_chain_butlast:
  "run_chain ss w = (w', tr, fl) \<Longrightarrow> e \<in> set (butlast tr) \<Longrightarrow> ok_ret (ret e)"
proof (induction ss arbitrary: w w' tr fl)
  case Nil
  then show ?case by simp
next
  case (Cons s ss)
  obtain w1 r where sw: "snd s w = (w1, r)" by (cases "snd s w")
  obtain w2 t2 f2 where rc: "run_chain ss w1 = (w2, t2, f2)" by (cases "run_chain ss w1") auto
  show ?case
  proof (cases "ok_ret r")
    case True
    then have tr: "tr = Call (fst s) w r # t2"
      using Cons.prems(1) sw rc by (auto simp: ok_ret_def)
    show ?thesis
    proof (cases "t2 = []")
      case True
      then show ?thesis using Cons.prems(2) tr by simp
    next
      case False
      then have "e = Call (fst s) w r \<or> e \<in> set (butlast t2)"
        using Cons.prems(2) tr by simp
      then show ?thesis
        using Cons.IH[OF rc] \<open>ok_ret r\<close> by auto
    qed
  next
    case False
    then have "tr = [Call (fst s) w r]"
      using Cons.prems(1) sw by (auto simp: ok_ret_def split: ret_val.splits if_splits)
    then show ?thesis using Cons.prems(2) by simp
  qed
qed

lemma run_chain_Continue:
  "run_chain ss w = (w', tr, Continue) \<Longrightarrow> length tr = length ss \<and> (\<forall>e\<in>set tr. ok_ret (ret e))"
proof (induction ss arbitrary: w w' tr)
  case Nil
  then show ?case by simp
next
  case (Cons s ss)
  obtain w1 r where sw: "snd s w = (w1, r)" by (cases "snd s w")
  obtain w2 t2 f2 where rc: "run_chain ss w1 = (w2, t2, f2)" by (cases "run_chain ss w1") auto
  have "ok_ret r \<and> tr = Call (fst s) w r # t2 \<and> f2 = Continue"
    using Cons.prems sw rc by (auto simp: ok_ret_def split: ret_val.splits if_splits)
  then show ?case
    using Cons.IH[of w1 w2 t2] rc by auto
qed

lemma run_chain_Halt:
  "run_chain ss w = (w', tr, Halt) \<Longrightarrow> tr \<noteq> [] \<and> ret (last tr) = Ret_bool False"
  by (induction ss arbitrary: w w' tr)
     (auto split: prod.splits ret_val.splits if_splits)

lemma run_chain_Panics:
  "run_chain ss w = (w', tr, Panics pv) \<Longrightarrow> tr \<noteq> [] \<and> ret (last tr) = Ret_panic pv"
  by (induction ss arbitrary: w w' tr)
     (auto split: prod.splits ret_val.splits if_splits)

lemma run_chain_bool_filter:
  "run_chain ss w = (w', tr, fl) \<Longrightarrow> \<forall>s\<in>set ss. wf_step s \<Longrightarrow> e \<in> set tr \<Longrightarrow>
   ret e = Ret_bool b \<Longrightarrow> is_filter (who e)"
proof (induction ss arbitrary: w w' tr fl)
  case Nil
  then show ?case by simp
next
  case (Cons s ss)
  obtain w1 r where sw: "snd s w = (w1, r)" by (cases "snd s w")
  obtain w2 t2 f2 where rc: "run_chain ss w1 = (w2, t2, f2)" by (cases "run_chain ss w1") auto
  have hd: "ret (Call (fst s) w r) = Ret_bool b \<Longrightarrow> is_filter (fst s)"
    using Cons.prems(2) sw by (auto simp: wf_step_def) (metis snd_conv)
  have "e = Call (fst s) w r \<or> e \<in> set t2"
    using Cons.prems(1,3) sw rc by (auto split: ret_val.splits if_splits)
  then show ?case
  proof
    assume "e = Call (fst s) w r"
    then show ?thesis using hd Cons.prems(4) by simp
  next
    assume "e \<in> set t2"
    then show ?thesis using Cons.IH[OF rc] Cons.prems(2,4) by simp
  qed
qed

text \<open>
  The record of the calls is truthful: its entry number \<open>i\<close> names step number
  \<open>i\<close> and holds what that step returns in the world recorded with it.
\<close>

lemma run_chain_truthful:
  "run_chain ss w = (w', tr, fl) \<Longrightarrow> i < length tr \<Longrightarrow>
   who (tr ! i) = fst (ss ! i) \<and> ret (tr ! i) = snd (snd (ss ! i) (arg (tr ! i)))"
proof (induction ss arbitrary: w w' tr fl i)
  case Nil
  then show ?case by simp
next
  case (Cons s ss)
  obtain w1 r where sw: "snd s w = (w1, r)" by (cases "snd s w")
  obtain w2 t2 f2 where rc: "run_chain ss w1 = (w2, t2, f2)" by (cases "run_chain ss w1") auto
  have hd: "tr \<noteq> [] \<and> hd tr = Call (fst s) w r"
    using Cons.prems(1) sw rc by (auto split: ret_val.splits if_splits)
  show ?case
  proof (cases i)
    case 0
    then show ?thesis using hd sw by (cases tr) auto
  next
    case (Suc j)
    then have "tr = Call (fst s) w r # t2"
      using Cons.prems sw rc by (auto split: ret_val.splits if_splits)
    then show ?thesis using Cons.IH[OF rc, of j] Cons.prems(2) Suc by simp
  qed
qed

lemma run_chain_nth_ok:
  assumes "run_chain ss w = (w', tr, fl)" and "Suc i < length tr"
  shows "ok_ret (ret (tr ! i))"
proof -
  have "i < length (butlast tr)" using assms(2) by simp
  then have "tr ! i \<in> set (butlast tr)"
    by (metis nth_butlast nth_mem)
  then show ?thesis using run_chain_butlast[OF assms(1)] by blast
qed

lemma run_chain_last:
  assumes "run_chain ss w = (w', tr, fl)" and "fl \<noteq> Continue"
  shows "tr \<noteq> [] \<and> \<not> ok_ret (ret (last tr)) \<and> (\<forall>b. ret (last tr) = Ret_bool b \<longrightarrow> fl = Halt)"
proof (cases fl)
  case Continue
  then show ?thesis using assms(2) by simp
next
  case Halt
  then show ?thesis using run_chain_Halt[of ss w w' tr] assms(1) by (simp add: ok_ret_def)
next
  case (Panics pv)
  then show ?thesis using run_chain_Panics[of ss w w' tr pv] assms(1) by (simp add: ok_ret_def)
qed

lemma deferred_calls:
  "res_calls (deferred c req lg (w, tr, fl)) =
     (case fl of
        Panics pv \<Rightarrow>
          (case serverError c of
             Some se \<Rightarrow> tr @ [Call ServerError w (ret_of_handler (snd (se w)))]
           | None \<Rightarrow> tr)
      | Continue \<Rightarrow> tr
      | Halt \<Rightarrow> tr)"
  by (simp add: deferred_def Let_def split: flow.splits option.splits prod.splits)

lemma ret_of_handler_not_bool: "ret_of_handler oc \<noteq> Ret_bool b"
  by (cases oc) simp_all

lemma chain_false_is_last:
  assumes rc: "run_chain ss w = (w', tr, fl)"
    and T: "T = res_calls (deferred c req lg (w', tr, fl))"
    and i: "i < length T" and f: "ret (T ! i) = Ret_bool False"
  shows "Suc i = length T \<and> map who T = take (Suc i) (map fst ss) \<and> fl = Halt"
proof -
  have nok: "\<not> ok_ret (ret (T ! i))" using f by (simp add: ok_ret_def)
  show ?thesis
  proof (cases "T = tr")
    case True
    have "\<not> Suc i < length tr" using run_chain_nth_ok[OF rc, of i] nok True by auto
    then have len: "Suc i = length tr" using i True by simp
    have tne: "tr \<noteq> []" using len by auto
    have li: "last tr = tr ! i"
      using tne len[symmetric] by (simp add: last_conv_nth)
    have mem: "tr ! i \<in> set tr" using len by simp
    have "fl \<noteq> Continue"
    proof
      assume "fl = Continue"
      then have "\<forall>e\<in>set tr. ok_ret (ret e)"
        using run_chain_Continue[of ss w w' tr] rc by simp
      then show False using mem nok True by simp
    qed
    then have "fl = Halt" using run_chain_last[OF rc] li f True by auto
    then show ?thesis using len True run_chain_who[OF rc] by simp
  next
    case False
    then obtain pv se where fl: "fl = Panics pv" and se: "serverError c = Some se"
      and Teq: "T = tr @ [Call ServerError w' (ret_of_handler (snd (se w')))]"
      using T by (auto simp: deferred_calls split: flow.splits option.splits)
    have ne: "tr \<noteq> []" and lp: "ret (last tr) = Ret_panic pv"
      using run_chain_Panics[of ss w w' tr pv] rc fl by simp_all
    have "i < length tr \<or> i = length tr" using i Teq by auto
    then show ?thesis
    proof
      assume lt: "i < length tr"
      then have Ti: "T ! i = tr ! i" using Teq by (simp add: nth_append)
      have "\<not> Suc i < length tr" using run_chain_nth_ok[OF rc, of i] nok Ti by auto
      then have "Suc i = length tr" using lt by simp
      then have "last tr = tr ! i"
        using ne by (simp add: last_conv_nth flip: \<open>Suc i = length tr\<close>)
      then show ?thesis using lp f Ti by simp
    next
      assume "i = length tr"
      then have "ret (T ! i) = ret_of_handler (snd (se w'))" using Teq by simp
      then show ?thesis using f ret_of_handler_not_bool[of "snd (se w')" False] by simp
    qed
  qed
qed

lemma chain_all_ok:
  assumes rc: "run_chain ss w = (w', tr, fl)"
    and T: "T = res_calls (deferred c req lg (w', tr, fl))"
    and ok: "\<forall>e\<in>set T. ok_ret (ret e)"
  shows "map who T = map fst ss \<and> fl = Continue"
proof (cases "fl = Continue")
  case True
  then have "T = tr" using T by (simp add: deferred_calls)
  then show ?thesis
    using run_chain_Continue[of ss w w' tr] rc True run_chain_who[OF rc] by simp
next
  case False
  then have ne: "tr \<noteq> []" and bad: "\<not> ok_ret (ret (last tr))"
    using run_chain_last[OF rc] by simp_all
  have "set tr \<subseteq> set T"
    using T by (auto simp: deferred_calls split: flow.splits option.splits)
  then have "last tr \<in> set T" using ne last_in_set by blast
  then show ?thesis using ok bad by blast
qed

lemma chain_prefix_true:
  assumes rc: "run_chain ss w = (w', tr, fl)"
    and T: "T = res_calls (deferred c req lg (w', tr, fl))"
    and n: "n < length ss"
    and tt: "\<forall>i<length T. i < n \<longrightarrow> ret (T ! i) = Ret_bool True"
  shows "n < length T \<and> take (Suc n) (map who T) = take (Suc n) (map fst ss)"
proof -
  have pre: "\<exists>x. T = tr @ x"
    using T by (auto simp: deferred_calls split: flow.splits option.splits)
  have long: "n < length tr"
  proof (rule ccontr)
    assume "\<not> n < length tr"
    then have le: "length tr \<le> n" by simp
    have "fl \<noteq> Continue"
      using run_chain_Continue[of ss w w' tr] rc le n by auto
    then have ne: "tr \<noteq> []" and bad: "\<not> ok_ret (ret (last tr))"
      using run_chain_last[OF rc] by simp_all
    have pos: "Suc 0 \<le> length tr" using ne by (cases tr) simp_all
    have lenT: "length tr \<le> length T" using pre by auto
    have idx: "length tr - 1 < length T" "length tr - 1 < n"
      using pos le lenT by arith+
    have "T ! (length tr - 1) = last tr"
      using pre ne by (auto simp: nth_append last_conv_nth)
    then show False using tt idx bad by (auto simp: ok_ret_def)
  qed
  have "take (Suc n) (map who T) = take (Suc n) (map who tr)"
    using pre long by auto
  also have "\<dots> = take (Suc n) (map fst ss)"
  proof -
    have "take (Suc n) (map who tr) = take (Suc n) (take (length tr) (map fst ss))"
      using run_chain_who[OF rc] by simp
    then show ?thesis using long by (simp add: min_absorb1)
  qed
  finally show ?thesis using long pre by auto
qed

section \<open>Properties of the serve functions\<close>

lemma serveEncoded_Response:
  "Response (fst (serveEncoded c val st secs)) =
     Response c @ [HeaderSet ''Content-Type'' (ContentType (coder c))] @
     (if 0 < secs
      then [HeaderSet ''Cache-control'' (''private, must-revalidate, max-age='' @ Sprintf_d secs)]
      else []) @
     [WriteHeader (if st = 0 then 200 else st)] @
     (case val of nil \<Rightarrow> [] | Val x \<Rightarrow> map Write (fst (Encode (coder c) val)))"
  by (simp add: serveEncoded_def Let_def StatusOK_def CacheControlHeader_def
      split: iface.splits prod.splits outcome.splits)

lemma serveEncoded_status:
  "serveEncoded c val st secs = (c', Returned u) \<Longrightarrow> status c' = (if st = 0 then 200 else st)"
  by (auto simp: serveEncoded_def Let_def StatusOK_def split: iface.splits prod.splits outcome.splits)

lemma serveEncoded_nil: "snd (serveEncoded c nil st secs) = Returned ()"
  by (simp add: serveEncoded_def Let_def)

lemma ServeStatus_status: "status (ServeStatus c st) = (if st = 0 then 200 else st)"
  by (simp add: ServeStatus_def Let_def StatusOK_def)

lemma Sprintf_d_404: "Sprintf_d 404 = ''404''"
  by (simp add: Sprintf_d_def show_nat_step show_nat_digit)

lemma Sprintf_d_60: "Sprintf_d 60 = ''60''"
  by (simp add: Sprintf_d_def show_nat_step show_nat_digit)

lemma test_ctx_fields:
  "Response test_ctx = []"
  "ContentType (coder test_ctx) = ''application/json;charset=UTF-8''"
  "Encode (coder test_ctx) (Val s) = ([CHR 0x22 # s @ [CHR 0x22, CHR 0x0A]], Returned None)"
  "status test_ctx = 0"
  by (simp_all add: test_ctx_def test_world1_def NewContext_def JSONEncoder_def)

section \<open>The closure bodies as chains: order of the calls\<close>

lemma fst_filter_steps: "map fst (filter_steps tg i fs) = map tg [i..<i + length fs]"
proof (induction fs arbitrary: i)
  case Nil
  show ?case by simp
next
  case (Cons f fs)
  show ?case by (simp add: Cons.IH filter_step_def upt_conv_Cons del: upt_Suc)
qed

lemma fst_handler_steps: "map fst (handler_steps tg i fs) = map tg [i..<i + length fs]"
proof (induction fs arbitrary: i)
  case Nil
  show ?case by simp
next
  case (Cons f fs)
  show ?case by (simp add: Cons.IH handler_step_def upt_conv_Cons del: upt_Suc)
qed

lemma addroute_steps_order: "map fst (addroute_steps c h filters) = addroute_order c filters"
  by (simp add: addroute_steps_def addroute_order_def fst_filter_steps fst_handler_steps
      handler_step_def)

lemma AddGroup_steps_order: "map fst (AddGroup_steps c g route) = AddGroup_order c g route"
  by (simp add: AddGroup_steps_def AddGroup_order_def fst_filter_steps fst_handler_steps
      handler_step_def)

lemma wf_handler_step: "wf_step (handler_step t f)"
  by (simp add: wf_step_def handler_step_def ret_of_handler_not_bool split: prod.splits)

lemma wf_handler_steps: "s \<in> set (handler_steps tg i fs) \<Longrightarrow> wf_step s"
  by (induction fs arbitrary: i) (auto simp: wf_handler_step)

lemma wf_filter_steps: "(\<And>j. is_filter (tg j)) \<Longrightarrow> s \<in> set (filter_steps tg i fs) \<Longrightarrow> wf_step s"
  by (induction fs arbitrary: i) (auto simp: wf_step_def filter_step_def)


lemma wf_AddGroup_steps: "\<forall>s\<in>set (AddGroup_steps c g route). wf_step s"
  by (auto simp: AddGroup_steps_def wf_handler_step dest: wf_handler_steps
      intro: wf_filter_steps[of GlobalPre] wf_filter_steps[of RouteFilter] wf_filter_steps[of GroupPre])

lemma closure_calls:
  assumes T: "T = res_calls (deferred c req lg (run_chain ss w))"
    and wf: "\<forall>s\<in>set ss. wf_step s"
    and n: "n < length ss"
    and flt: "\<And>i. i < length ss \<Longrightarrow> is_filter (fst (ss ! i)) \<Longrightarrow> i < n"
  shows "(\<forall>i<length T. ret (T ! i) = Ret_bool False \<longrightarrow>
            map who T = take (Suc i) (map fst ss) \<and> Suc i \<le> n) \<and>
         ((\<forall>i<length T. i < n \<longrightarrow> ret (T ! i) = Ret_bool True) \<longrightarrow>
            n < length T \<and> take (Suc n) (map who T) = take (Suc n) (map fst ss)) \<and>
         ((\<forall>e\<in>set T. ok_ret (ret e)) \<longrightarrow> map who T = map fst ss)"
proof -
  obtain w' tr fl where rc: "run_chain ss w = (w', tr, fl)"
    by (cases "run_chain ss w") auto
  have T': "T = res_calls (deferred c req lg (w', tr, fl))" using T rc by simp
  have A: "map who T = take (Suc i) (map fst ss) \<and> Suc i \<le> n"
    if i: "i < length T" and f: "ret (T ! i) = Ret_bool False" for i
  proof -
    have l: "Suc i = length T" "map who T = take (Suc i) (map fst ss)" "fl = Halt"
      using chain_false_is_last[OF rc T' i f] by simp_all
    have Ttr: "T = tr" using T' l(3) by (simp add: deferred_calls)
    have len: "length tr \<le> length ss" using run_chain_length[OF rc] .
    have mem: "tr ! i \<in> set tr" using i Ttr by simp
    have filt: "is_filter (who (tr ! i))"
      using run_chain_bool_filter[OF rc wf mem, of False] f Ttr by simp
    have "who (tr ! i) = (map who tr) ! i" using i Ttr by simp
    also have "\<dots> = fst (ss ! i)"
      using l(1,2) Ttr len i by (simp add: run_chain_who[OF rc])
    finally have "is_filter (fst (ss ! i))" using filt by simp
    moreover have "i < length ss" using l(1) Ttr len by simp
    ultimately have "i < n" using flt by blast
    then show ?thesis using l(2) by simp
  qed
  show ?thesis
    using A chain_prefix_true[OF rc T' n] chain_all_ok[OF rc T'] by blast
qed


lemma AddGroup_order_filter:
  assumes "i < length (AddGroup_order c g route)" and "is_filter (AddGroup_order c g route ! i)"
  shows "i < length (prefilters c) + length (g_prefilters g) + length (route_filters route)"
proof (rule ccontr)
  assume "\<not> i < length (prefilters c) + length (g_prefilters g) + length (route_filters route)"
  then have ge: "length (prefilters c) + length (g_prefilters g) + length (route_filters route) \<le> i"
    by simp
  let ?pre = "map GlobalPre [0..<length (prefilters c)] @ map GroupPre [0..<length (g_prefilters g)] @
              map RouteFilter [0..<length (route_filters route)]"
  let ?post = "RouteHandler # map GroupPost [0..<length (g_postfilters g)] @
               map GlobalPost [0..<length (postfilters c)]"
  have o: "AddGroup_order c g route = ?pre @ ?post" by (simp add: AddGroup_order_def)
  have lp: "length ?pre = length (prefilters c) + length (g_prefilters g) + length (route_filters route)"
    by simp
  have "AddGroup_order c g route ! i = ?post ! (i - length ?pre)"
    unfolding o using ge lp by (simp only: nth_append) simp
  moreover have "i - length ?pre < length ?post"
    using assms(1) ge unfolding o by simp
  ultimately have "AddGroup_order c g route ! i \<in> set ?post"
    by (metis nth_mem)
  then have "\<not> is_filter (AddGroup_order c g route ! i)" by auto
  then show False using assms(2) by simp
qed



lemma AddGroup_f_calls:
  "res_calls (AddGroup_f c g route hp uuid resp req p) =
     res_calls (deferred c req [started (NewContext hp uuid req resp p (Cobalt_coder c)) req]
       (run_chain (AddGroup_steps c g route) (NewContext hp uuid req resp p (Cobalt_coder c))))"
  by (simp add: AddGroup_f_def Let_def AddGroup_body_chain)


lemma AddGroup_calls_order:
  assumes "T = res_calls (deferred c req lg (run_chain (AddGroup_steps c g route) w))"
  shows "(\<forall>i<length T. ret (T ! i) = Ret_bool False \<longrightarrow>
            map who T = take (Suc i) (AddGroup_order c g route) \<and>
            Suc i \<le> length (prefilters c) + length (g_prefilters g) + length (route_filters route)) \<and>
         ((\<forall>i<length T. i < length (prefilters c) + length (g_prefilters g) + length (route_filters route)
              \<longrightarrow> ret (T ! i) = Ret_bool True) \<longrightarrow>
            length (prefilters c) + length (g_prefilters g) + length (route_filters route) < length T \<and>
            take (Suc (length (prefilters c) + length (g_prefilters g) + length (route_filters route)))
              (map who T) =
              take (Suc (length (prefilters c) + length (g_prefilters g) + length (route_filters route)))
                (AddGroup_order c g route)) \<and>
         ((\<forall>e\<in>set T. ok_ret (ret e)) \<longrightarrow> map who T = AddGroup_order c g route)"
proof -
  let ?ss = "AddGroup_steps c g route"
  let ?n = "length (prefilters c) + length (g_prefilters g) + length (route_filters route)"
  have len: "length ?ss = length (AddGroup_order c g route)"
    using AddGroup_steps_order[of c g route] by (metis length_map)
  have n: "?n < length ?ss"
    unfolding len by (simp add: AddGroup_order_def)
  have flt: "i < ?n" if "i < length ?ss" "is_filter (fst (?ss ! i))" for i
  proof -
    have "fst (?ss ! i) = AddGroup_order c g route ! i"
      using that(1) AddGroup_steps_order[of c g route] by (metis nth_map)
    then show ?thesis using AddGroup_order_filter[of i c g route] that len by simp
  qed
  show ?thesis
    unfolding AddGroup_steps_order[of c g route, symmetric]
    by (rule closure_calls[OF assms wf_AddGroup_steps n]) (rule flt, assumption+)
qed

section \<open>Evaluation of the test dispatchers\<close>





lemma test_server_error_fields:
  "prefilters test_server_error = []"
  "postfilters test_server_error = []"
  "serverError test_server_error = Some se_handler"
  "handlers (router test_server_error) = [(''GET'', ''/'', Route_closure (Some panic_handler) [])]"
  "Cobalt_coder test_server_error = JSONEncoder"
  by (simp_all add: test_server_error_def Get_def addroute_def Handle_def AddServerErrHandler_def
      New_def GetMethod_def)

lemma test_group_fields:
  "g_prefilters test_group = []"
  "g_postfilters test_group = []"
  "routes test_group =
     [\<lparr>route_path = ''/a'', route_verb = ''GET'', route_h = Some (write_handler ''A''), route_filters = []\<rparr>,
      \<lparr>route_path = ''/b'', route_verb = ''GET'', route_h = Some (write_handler ''B''), route_filters = []\<rparr>]"
  by (simp_all add: test_group_def Group_Get_def Group_addRoute_def empty_Group_def GetMethod_def)

lemma test_group_cobalt_fields:
  "prefilters test_group_cobalt = []"
  "postfilters test_group_cobalt = []"
  "serverError test_group_cobalt = None"
  "Cobalt_coder test_group_cobalt = JSONEncoder"
  "handlers (router test_group_cobalt) =
     [(''GET'', ''/a'', Group_closure test_group
         \<lparr>route_path = ''/b'', route_verb = ''GET'', route_h = Some (write_handler ''B''), route_filters = []\<rparr>),
      (''GET'', ''/b'', Group_closure test_group
         \<lparr>route_path = ''/b'', route_verb = ''GET'', route_h = Some (write_handler ''B''), route_filters = []\<rparr>)]"
  by (simp_all add: test_group_cobalt_def AddGroup_def New_def Handle_def test_group_fields)

section \<open>The completion record\<close>

lemma deferred_completions:
  "length (filter is_Complete (res_log (deferred c req lg (w, tr, fl)))) =
     length (filter is_Complete lg) +
     (case fl of
        Panics pv \<Rightarrow> (case serverError c of Some se \<Rightarrow> 0 | None \<Rightarrow> 1)
      | Continue \<Rightarrow> 1
      | Halt \<Rightarrow> 1)"
  by (simp add: deferred_def Let_def completion_def split: flow.splits option.splits prod.splits)

lemma addroute_f_treemux_completions:
  "length (filter is_Complete (res_log (addroute_f_treemux c h filters hp uuid resp req p))) =
     (case snd (snd (addroute_body c h filters (NewContext hp uuid req resp p (Cobalt_coder c)))) of
        Panics pv \<Rightarrow> (case serverError c of Some se \<Rightarrow> 0 | None \<Rightarrow> 1)
      | Continue \<Rightarrow> 1
      | Halt \<Rightarrow> 1)"
proof -
  obtain w tr fl where b: "addroute_body c h filters (NewContext hp uuid req resp p (Cobalt_coder c)) = (w, tr, fl)"
    by (cases "addroute_body c h filters (NewContext hp uuid req resp p (Cobalt_coder c))") auto
  show ?thesis
    by (simp add: addroute_f_treemux_def Let_def b deferred_completions started_def)
qed

lemma AddGroup_f_completions:
  "length (filter is_Complete (res_log (AddGroup_f c g route hp uuid resp req p))) =
     (case snd (snd (AddGroup_body c g route (NewContext hp uuid req resp p (Cobalt_coder c)))) of
        Panics pv \<Rightarrow> (case serverError c of Some se \<Rightarrow> 0 | None \<Rightarrow> 1)
      | Continue \<Rightarrow> 1
      | Halt \<Rightarrow> 1)"
proof -
  obtain w tr fl where b: "AddGroup_body c g route (NewContext hp uuid req resp p (Cobalt_coder c)) = (w, tr, fl)"
    by (cases "AddGroup_body c g route (NewContext hp uuid req resp p (Cobalt_coder c))") auto
  show ?thesis
    by (simp add: AddGroup_f_def Let_def b deferred_completions started_def)
qed

section \<open>The first call of a closure\<close>

lemma run_chain_first:
  "run_chain (s # ss) w = (w', tr, fl) \<Longrightarrow> tr \<noteq> [] \<and> arg (hd tr) = w \<and> who (hd tr) = fst s"
  by (auto split: prod.splits ret_val.splits if_splits)

lemma addroute_steps_Cons: "\<exists>s ss. addroute_steps c h filters = s # ss"
  by (cases "addroute_steps c h filters") (simp_all add: addroute_steps_def)

lemma AddGroup_steps_Cons: "\<exists>s ss. AddGroup_steps c g route = s # ss"
  by (cases "AddGroup_steps c g route") (simp_all add: AddGroup_steps_def)

lemma deferred_first_call:
  assumes "run_chain (s # ss) w = (w', tr, fl)"
  shows "res_calls (deferred c req lg (w', tr, fl)) \<noteq> [] \<and>
         arg (hd (res_calls (deferred c req lg (w', tr, fl)))) = w \<and>
         who (hd (res_calls (deferred c req lg (w', tr, fl)))) = fst s"
  using run_chain_first[OF assms]
  by (auto simp: deferred_calls split: flow.splits option.splits)

lemma addroute_f_httprouter_first:
  "res_calls (addroute_f_httprouter c h filters hp uuid resp req p) \<noteq> [] \<and>
   arg (hd (res_calls (addroute_f_httprouter c h filters hp uuid resp req p))) =
     (NewContext hp uuid req resp p (Cobalt_coder c))
       \<lparr>ctx := (ctx (NewContext hp uuid req resp p (Cobalt_coder c)))
          \<lparr>Response := resp @ [HeaderSet ''X-Request-Id'' uuid]\<rparr>\<rparr> \<and>
   who (hd (res_calls (addroute_f_httprouter c h filters hp uuid resp req p))) =
     hd (addroute_order c filters)"
proof -
  let ?w = "(NewContext hp uuid req resp p (Cobalt_coder c))
       \<lparr>ctx := (ctx (NewContext hp uuid req resp p (Cobalt_coder c)))
          \<lparr>Response := resp @ [HeaderSet ''X-Request-Id'' uuid]\<rparr>\<rparr>"
  obtain s ss where ss: "addroute_steps c h filters = s # ss"
    using addroute_steps_Cons by blast
  have ho: "hd (addroute_order c filters) = fst s"
    using arg_cong[OF ss, of "\<lambda>x. hd (map fst x)"] addroute_steps_order[of c h filters] by simp
  obtain w' tr fl where rc: "run_chain (s # ss) ?w = (w', tr, fl)"
    by (cases "run_chain (s # ss) ?w") auto
  have "addroute_f_httprouter c h filters hp uuid resp req p =
          deferred c req [started (NewContext hp uuid req resp p (Cobalt_coder c)) req]
            (run_chain (addroute_steps c h filters) ?w)"
    by (simp add: addroute_f_httprouter_def Let_def addroute_body_chain NewContext_def)
  then have "addroute_f_httprouter c h filters hp uuid resp req p =
          deferred c req [started (NewContext hp uuid req resp p (Cobalt_coder c)) req] (w', tr, fl)"
    by (simp only: ss rc)
  then show ?thesis using deferred_first_call[OF rc] ho by simp
qed

lemma addroute_f_treemux_first:
  "res_calls (addroute_f_treemux c h filters hp uuid resp req p) \<noteq> [] \<and>
   arg (hd (res_calls (addroute_f_treemux c h filters hp uuid resp req p))) =
     NewContext hp uuid req resp p (Cobalt_coder c) \<and>
   who (hd (res_calls (addroute_f_treemux c h filters hp uuid resp req p))) =
     hd (addroute_order c filters)"
proof -
  let ?w = "NewContext hp uuid req resp p (Cobalt_coder c)"
  obtain s ss where ss: "addroute_steps c h filters = s # ss"
    using addroute_steps_Cons by blast
  have ho: "hd (addroute_order c filters) = fst s"
    using arg_cong[OF ss, of "\<lambda>x. hd (map fst x)"] addroute_steps_order[of c h filters] by simp
  obtain w' tr fl where rc: "run_chain (s # ss) ?w = (w', tr, fl)"
    by (cases "run_chain (s # ss) ?w") auto
  have "addroute_f_treemux c h filters hp uuid resp req p =
          deferred c req [started ?w req] (run_chain (addroute_steps c h filters) ?w)"
    by (simp add: addroute_f_treemux_def Let_def addroute_body_chain)
  then have "addroute_f_treemux c h filters hp uuid resp req p = deferred c req [started ?w req] (w', tr, fl)"
    by (simp only: ss rc)
  then show ?thesis using deferred_first_call[OF rc] ho by simp
qed

lemma AddGroup_f_first:
  "res_calls (AddGroup_f c g route hp uuid resp req p) \<noteq> [] \<and>
   arg (hd (res_calls (AddGroup_f c g route hp uuid resp req p))) =
     NewContext hp uuid req resp p (Cobalt_coder c) \<and>
   who (hd (res_calls (AddGroup_f c g route hp uuid resp req p))) =
     hd (AddGroup_order c g route)"
proof -
  let ?w = "NewContext hp uuid req resp p (Cobalt_coder c)"
  obtain s ss where ss: "AddGroup_steps c g route = s # ss"
    using AddGroup_steps_Cons by blast
  have ho: "hd (AddGroup_order c g route) = fst s"
    using arg_cong[OF ss, of "\<lambda>x. hd (map fst x)"] AddGroup_steps_order[of c g route] by simp
  obtain w' tr fl where rc: "run_chain (s # ss) ?w = (w', tr, fl)"
    by (cases "run_chain (s # ss) ?w") auto
  have "AddGroup_f c g route hp uuid resp req p =
          deferred c req [started ?w req] (run_chain (AddGroup_steps c g route) ?w)"
    by (simp add: AddGroup_f_def Let_def AddGroup_body_chain)
  then have "AddGroup_f c g route hp uuid resp req p = deferred c req [started ?w req] (w', tr, fl)"
    by (simp only: ss rc)
  then show ?thesis using deferred_first_call[OF rc] ho by simp
qed

section \<open>The closures of a group\<close>

text \<open>
  The order of the calls of the closure of \<^verbatim>\<open>AddGroup\<close>, for the route its variable
  \<^verbatim>\<open>route\<close> holds when it runs: global pre-filters, group pre-filters, the filters
  of that route, its handler, group post-filters, global post-filters; a call that
  returned false is the last call, and it is a pre-filter.
\<close>

lemma AddGroup_f_order:
  "(\<forall>i<length (res_calls (AddGroup_f c g route hp uuid resp req p)).
      ret (res_calls (AddGroup_f c g route hp uuid resp req p) ! i) = Ret_bool False \<longrightarrow>
      map who (res_calls (AddGroup_f c g route hp uuid resp req p)) =
        take (Suc i) (AddGroup_order c g route) \<and>
      Suc i \<le> length (prefilters c) + length (g_prefilters g) + length (route_filters route)) \<and>
   ((\<forall>e\<in>set (res_calls (AddGroup_f c g route hp uuid resp req p)).
        ret e = Ret_bool True \<or> ret e = Ret_unit) \<longrightarrow>
      map who (res_calls (AddGroup_f c g route hp uuid resp req p)) = AddGroup_order c g route)"
  using AddGroup_calls_order[OF AddGroup_f_calls[of c g route hp uuid resp req p]]
  unfolding ok_ret_def by blast

text \<open>
  The closures registered by \<^verbatim>\<open>AddGroup\<close>: one registration per route of the group,
  under that route's verb and path, and every one of them reads the last route.
\<close>

lemma AddGroup_handlers:
  "handlers (foldl (\<lambda>rt r. Handle rt (route_verb r) (route_path r) (Group_closure g z)) rt0 rs) =
     handlers rt0 @ map (\<lambda>r. (route_verb r, route_path r, Group_closure g z)) rs"
  by (induction rs arbitrary: rt0) (simp_all add: Handle_def)

lemma AddGroup_registrations:
  "handlers (router (AddGroup c g)) =
     handlers (router c) @
     map (\<lambda>r. (route_verb r, route_path r, Group_closure g (last (routes g)))) (routes g)"
  by (simp add: AddGroup_def AddGroup_handlers)

section \<open>The request context: claims\<close>

text \<open>
  C7. \<^verbatim>\<open>RouteValue(name)\<close> is a total function of the context and the name: it
  gives the matched value when the parameter map holds the name, and the empty text
  when the map does not hold it or is nil. The model has no failing branch because the
  Go function has none: indexing a map, nil or not, never panics.
\<close>

theorem C7_RouteValue_total:
  "(\<forall>m v. params c = Some m \<and> m name = Some v \<longrightarrow> RouteValue c name = v) \<and>
   (\<forall>m. params c = Some m \<and> m name = None \<longrightarrow> RouteValue c name = '''') \<and>
   (params c = None \<longrightarrow> RouteValue c name = '''')"
  by (simp add: RouteValue_def)

theorem C7_RouteValue_total_witness:
  "RouteValue (test_ctx\<lparr>params := Some [''id'' \<mapsto> ''42'']\<rparr>) ''id'' = ''42'' \<and>
   RouteValue (test_ctx\<lparr>params := Some [''id'' \<mapsto> ''42'']\<rparr>) ''missing'' = '''' \<and>
   RouteValue test_ctx ''id'' = ''''"
proof -
  have p: "params (test_ctx\<lparr>params := Some [''id'' \<mapsto> ''42'']\<rparr>) = Some [''id'' \<mapsto> ''42'']"
    by simp
  have n: "params test_ctx = None"
    by (simp add: test_ctx_def test_world1_def NewContext_def)
  show ?thesis
    using C7_RouteValue_total[of "test_ctx\<lparr>params := Some [''id'' \<mapsto> ''42'']\<rparr>" "''id''"]
      C7_RouteValue_total[of "test_ctx\<lparr>params := Some [''id'' \<mapsto> ''42'']\<rparr>" "''missing''"]
      C7_RouteValue_total[of test_ctx "''id''"] p n
    by simp
qed

text \<open>
  C10. For a context whose data map is a map object of the store (every context
  \<^verbatim>\<open>NewContext\<close> returns is one): \<^verbatim>\<open>SetData(k, v)\<close> returns, and afterwards
  \<^verbatim>\<open>GetData(k)\<close> gives \<open>v\<close>, also when \<open>k\<close> is set once more (the last value
  wins); the other keys of the context and every key of every context with another map
  object read as before. A context fresh from \<^verbatim>\<open>NewContext\<close> reads nil at every key,
  its map object is none of those of the contexts that exist, and they read as before.
  After any history of \<^verbatim>\<open>SetData\<close> calls on contexts of the store,
  \<^verbatim>\<open>GetData(k)\<close> on a context gives the value of the last call made on that
  context's map object with the key \<open>k\<close>, and what it gave before the history when
  there was no such call.
\<close>

theorem C10_scratch_data:
  "(live hp c \<longrightarrow>
      (\<exists>hp'. SetData hp c k v = Returned hp' \<and>
         GetData hp' c k = v \<and>
         (\<forall>v2. \<exists>hp''. SetData hp' c k v2 = Returned hp'' \<and> GetData hp'' c k = v2) \<and>
         (\<forall>k'. k' \<noteq> k \<longrightarrow> GetData hp' c k' = GetData hp c k') \<and>
         (\<forall>c2 k'. live hp c2 \<and> data c2 \<noteq> data c \<longrightarrow> GetData hp' c2 k' = GetData hp c2 k') \<and>
         (\<forall>c2. live hp c2 \<longrightarrow> live hp' c2))) \<and>
   (let w = NewContext hp uuid req resp p cdr
    in live (heap w) (ctx w) \<and>
       (\<forall>k'. GetData (heap w) (ctx w) k' = nil) \<and>
       (\<forall>c2. live hp c2 \<longrightarrow>
          data c2 \<noteq> data (ctx w) \<and> live (heap w) c2 \<and>
          (\<forall>k'. GetData (heap w) c2 k' = GetData hp c2 k'))) \<and>
   (live hp c \<and> (\<forall>op\<in>set ops. live hp (fst op)) \<longrightarrow>
      GetData (set_all hp ops) c k =
        (case last_set ops c k of None \<Rightarrow> GetData hp c k | Some x \<Rightarrow> x))"
proof (intro conjI impI)
  assume l: "live hp c"
  then obtain a where a: "data c = Some a" "a < length hp"
    by (auto simp: live_def split: option.splits)
  let ?hp = "hp[a := (hp ! a)(k \<mapsto> v)]"
  have s: "SetData hp c k v = Returned ?hp" using a by (simp add: SetData_def)
  have g: "GetData ?hp c k = v" using a by (simp add: GetData_def)
  have t: "\<forall>v2. \<exists>hp''. SetData ?hp c k v2 = Returned hp'' \<and> GetData hp'' c k = v2"
    using a by (simp add: SetData_def GetData_def)
  have f: "\<forall>k'. k' \<noteq> k \<longrightarrow> GetData ?hp c k' = GetData hp c k'"
    using a by (simp add: GetData_def)
  have i: "\<forall>c2 k'. live hp c2 \<and> data c2 \<noteq> data c \<longrightarrow> GetData ?hp c2 k' = GetData hp c2 k'"
    using a by (auto simp: GetData_def live_def split: option.splits)
  have p: "\<forall>c2. live hp c2 \<longrightarrow> live ?hp c2"
    by (auto simp: live_def split: option.splits)
  show "\<exists>hp'. SetData hp c k v = Returned hp' \<and>
         GetData hp' c k = v \<and>
         (\<forall>v2. \<exists>hp''. SetData hp' c k v2 = Returned hp'' \<and> GetData hp'' c k = v2) \<and>
         (\<forall>k'. k' \<noteq> k \<longrightarrow> GetData hp' c k' = GetData hp c k') \<and>
         (\<forall>c2 k'. live hp c2 \<and> data c2 \<noteq> data c \<longrightarrow> GetData hp' c2 k' = GetData hp c2 k') \<and>
         (\<forall>c2. live hp c2 \<longrightarrow> live hp' c2)"
    using s g t f i p by blast
next
  show "let w = NewContext hp uuid req resp p cdr
    in live (heap w) (ctx w) \<and>
       (\<forall>k'. GetData (heap w) (ctx w) k' = nil) \<and>
       (\<forall>c2. live hp c2 \<longrightarrow>
          data c2 \<noteq> data (ctx w) \<and> live (heap w) c2 \<and>
          (\<forall>k'. GetData (heap w) c2 k' = GetData hp c2 k'))"
    by (auto simp: Let_def NewContext_def live_def GetData_def nth_append split: option.splits)
next
  assume "live hp c \<and> (\<forall>op\<in>set ops. live hp (fst op))"
  then show "GetData (set_all hp ops) c k =
        (case last_set ops c k of None \<Rightarrow> GetData hp c k | Some x \<Rightarrow> x)"
    using GetData_set_all[of hp c ops k] by simp
qed

theorem C10_scratch_data_witness:
  "live (heap test_world2) (ctx test_world1) \<and>
   (\<exists>hp'. SetData (heap test_world2) (ctx test_world1) ''PRE'' (Val ''PREFILTER'') = Returned hp' \<and>
      GetData hp' (ctx test_world1) ''PRE'' = Val ''PREFILTER'' \<and>
      GetData hp' (ctx test_world2) ''PRE'' = nil) \<and>
   GetData (set_all (heap test_world2)
       [(ctx test_world1, ''PRE'', Val ''a''), (ctx test_world2, ''PRE'', Val ''b''),
        (ctx test_world1, ''PRE'', Val ''c'')]) (ctx test_world1) ''PRE'' = Val ''c'' \<and>
   GetData (set_all (heap test_world2)
       [(ctx test_world1, ''PRE'', Val ''a''), (ctx test_world2, ''PRE'', Val ''b''),
        (ctx test_world1, ''PRE'', Val ''c'')]) (ctx test_world1) ''POST'' = nil"
proof -
  let ?ops = "[(ctx test_world1, ''PRE'', Val ''a''), (ctx test_world2, ''PRE'', Val ''b''),
        (ctx test_world1, ''PRE'', Val ''c'')]"
  have d: "data (ctx test_world1) = Some 0" "data (ctx test_world2) = Some 1"
    by (simp_all add: test_world1_def test_world2_def NewContext_def)
  have l1: "live (heap test_world2) (ctx test_world1)"
    by (simp add: live_def test_world1_def test_world2_def NewContext_def)
  have l2: "live (heap test_world2) (ctx test_world2) \<and> data (ctx test_world2) \<noteq> data (ctx test_world1)"
    by (simp add: live_def test_world1_def test_world2_def NewContext_def)
  have n2: "GetData (heap test_world2) (ctx test_world2) ''PRE'' = nil"
    by (simp add: GetData_def test_world1_def test_world2_def NewContext_def)
  from C10_scratch_data[of "heap test_world2" "ctx test_world1" "''PRE''" "Val ''PREFILTER''"] l1
  obtain hp' where h: "SetData (heap test_world2) (ctx test_world1) ''PRE'' (Val ''PREFILTER'') = Returned hp'"
      "GetData hp' (ctx test_world1) ''PRE'' = Val ''PREFILTER''"
      "\<forall>c2 k'. live (heap test_world2) c2 \<and> data c2 \<noteq> data (ctx test_world1) \<longrightarrow>
         GetData hp' c2 k' = GetData (heap test_world2) c2 k'"
    by blast
  have e: "GetData hp' (ctx test_world2) ''PRE'' = nil"
    using h(3) l2 n2 by simp
  have lo: "\<forall>op\<in>set ?ops. live (heap test_world2) (fst op)"
    using l1 l2 by simp
  have n1: "GetData (heap test_world2) (ctx test_world1) ''POST'' = nil"
    by (simp add: GetData_def test_world1_def test_world2_def NewContext_def)
  have s1: "GetData (set_all (heap test_world2) ?ops) (ctx test_world1) ''PRE'' = Val ''c''"
    using C10_scratch_data[of "heap test_world2" "ctx test_world1" "''PRE''" _ _ _ _ _ _ ?ops] l1 lo
    by (simp add: last_set_def d)
  have s2: "GetData (set_all (heap test_world2) ?ops) (ctx test_world1) ''POST'' = nil"
    using C10_scratch_data[of "heap test_world2" "ctx test_world1" "''POST''" _ _ _ _ _ _ ?ops] l1 lo n1
    by (simp add: last_set_def d)
  show ?thesis using l1 h(1,2) e s1 s2 by blast
qed

text \<open>
  C5, as stated, fails for two of the five functions it names. \<^verbatim>\<open>ServeStatus\<close> sets
  no header at all, and \<^verbatim>\<open>ServeResponse\<close> sets \<^verbatim>\<open>Content-Type\<close> to the content type
  it is given, not to the coder's.
\<close>

theorem C5_every_serve_sets_content_type_counterexample:
  "header_value (Response (ServeStatus test_ctx 204)) ''Content-Type'' \<noteq>
     Some (ContentType (coder test_ctx)) \<and>
   header_value (Response (ServeResponse test_ctx ''ok'' 200 ''text/plain'')) ''Content-Type'' \<noteq>
     Some (ContentType (coder test_ctx))"
  by (simp add: ServeStatus_def ServeResponse_def Let_def test_ctx_def test_world1_def
      NewContext_def JSONEncoder_def)

text \<open>
  C5, amended. A call of \<^verbatim>\<open>ServeCachedWithStatus(val, status, seconds)\<close> that returns
  has made these calls on the response, in this order: \<^verbatim>\<open>Content-Type\<close> set to the
  coder's content type; \<^verbatim>\<open>Cache-control\<close> set to
  \<^verbatim>\<open>private, must-revalidate, max-age=<seconds>\<close> exactly when \<open>seconds\<close> is positive
  (otherwise the header is left as it was); \<^verbatim>\<open>WriteHeader\<close> with the status, 200 for
  0; the writes of the coder's encoding of the value, none exactly when the value is nil.
  \<^verbatim>\<open>ServeWithStatus\<close> is the same with 0 seconds and \<^verbatim>\<open>Serve\<close> the same with status
  200 and 0 seconds. \<^verbatim>\<open>ServeStatus\<close> only writes the status, 200 for 0.
  \<^verbatim>\<open>ServeResponse\<close> sets \<^verbatim>\<open>Content-Type\<close> to its argument unless that is empty,
  writes the status as given and then the bytes as given.
\<close>

theorem C5_serve_calls:
  "(ServeCachedWithStatus c val st secs = (c', Returned u) \<longrightarrow>
      Response c' =
        Response c @ [HeaderSet ''Content-Type'' (ContentType (coder c))] @
        (if 0 < secs
         then [HeaderSet ''Cache-control'' (''private, must-revalidate, max-age='' @ Sprintf_d secs)]
         else []) @
        [WriteHeader (if st = 0 then 200 else st)] @
        (case val of nil \<Rightarrow> [] | Val x \<Rightarrow> map Write (fst (Encode (coder c) val))) \<and>
      header_value (Response c') ''Content-Type'' = Some (ContentType (coder c)) \<and>
      header_value (Response c') ''Cache-control'' =
        (if 0 < secs then Some (''private, must-revalidate, max-age='' @ Sprintf_d secs)
         else header_value (Response c) ''Cache-control'')) \<and>
   ServeWithStatus c val st = ServeCachedWithStatus c val st 0 \<and>
   Serve c val = ServeCachedWithStatus c val 200 0 \<and>
   Response (ServeStatus c st) = Response c @ [WriteHeader (if st = 0 then 200 else st)] \<and>
   Response (ServeResponse c resp st ct) =
     Response c @ (if ct = '''' then [] else [HeaderSet ''Content-Type'' ct]) @
     [WriteHeader st, Write resp]"
proof (intro conjI impI)
  assume a: "ServeCachedWithStatus c val st secs = (c', Returned u)"
  show r: "Response c' =
        Response c @ [HeaderSet ''Content-Type'' (ContentType (coder c))] @
        (if 0 < secs
         then [HeaderSet ''Cache-control'' (''private, must-revalidate, max-age='' @ Sprintf_d secs)]
         else []) @
        [WriteHeader (if st = 0 then 200 else st)] @
        (case val of nil \<Rightarrow> [] | Val x \<Rightarrow> map Write (fst (Encode (coder c) val)))"
    using serveEncoded_Response[of c val st secs] a by (simp add: ServeCachedWithStatus_def)
  show "header_value (Response c') ''Content-Type'' = Some (ContentType (coder c))"
    unfolding r by (simp add: header_value_append header_value_map_Write split: iface.splits)
  show "header_value (Response c') ''Cache-control'' =
        (if 0 < secs then Some (''private, must-revalidate, max-age='' @ Sprintf_d secs)
         else header_value (Response c) ''Cache-control'')"
    unfolding r by (simp add: header_value_append header_value_map_Write split: iface.splits)
next
  show "ServeWithStatus c val st = ServeCachedWithStatus c val st 0"
    by (simp add: ServeWithStatus_def ServeCachedWithStatus_def)
next
  show "Serve c val = ServeCachedWithStatus c val 200 0"
    by (simp add: Serve_def ServeCachedWithStatus_def StatusOK_def)
next
  show "Response (ServeStatus c st) = Response c @ [WriteHeader (if st = 0 then 200 else st)]"
    by (simp add: ServeStatus_def Let_def StatusOK_def)
next
  show "Response (ServeResponse c resp st ct) =
     Response c @ (if ct = '''' then [] else [HeaderSet ''Content-Type'' ct]) @
     [WriteHeader st, Write resp]"
    by (simp add: ServeResponse_def Let_def)
qed

theorem C5_serve_calls_witness:
  "snd (ServeCachedWithStatus test_ctx (Val ''hi'') 0 60) = Returned () \<and>
   Response (fst (ServeCachedWithStatus test_ctx (Val ''hi'') 0 60)) =
     [HeaderSet ''Content-Type'' ''application/json;charset=UTF-8'',
      HeaderSet ''Cache-control'' ''private, must-revalidate, max-age=60'',
      WriteHeader 200,
      Write (CHR 0x22 # ''hi'' @ [CHR 0x22, CHR 0x0A])] \<and>
   Response (fst (ServeCachedWithStatus test_ctx nil 404 0)) =
     [HeaderSet ''Content-Type'' ''application/json;charset=UTF-8'', WriteHeader 404]"
proof -
  have s: "snd (ServeCachedWithStatus test_ctx (Val ''hi'') 0 60) = Returned ()"
    "snd (ServeCachedWithStatus test_ctx nil 404 0) = Returned ()"
    by (simp_all add: ServeCachedWithStatus_def serveEncoded_def Let_def test_ctx_def
        test_world1_def NewContext_def JSONEncoder_def)
  have e: "ServeCachedWithStatus test_ctx (Val ''hi'') 0 60 =
             (fst (ServeCachedWithStatus test_ctx (Val ''hi'') 0 60), Returned ())"
    "ServeCachedWithStatus test_ctx nil 404 0 =
             (fst (ServeCachedWithStatus test_ctx nil 404 0), Returned ())"
    using s by (simp_all add: prod_eq_iff)
  show ?thesis
    using C5_serve_calls[of test_ctx "Val ''hi''" 0 60 "fst (ServeCachedWithStatus test_ctx (Val ''hi'') 0 60)" "()"]
      C5_serve_calls[of test_ctx nil 404 0 "fst (ServeCachedWithStatus test_ctx nil 404 0)" "()"]
      e s
    by (simp add: test_ctx_fields Sprintf_d_60)
qed

text \<open>
  C6 does not hold of \<^verbatim>\<open>ServeResponse\<close>, which neither records the status on the
  context nor replaces 0 by 200, as \<^verbatim>\<open>serveEncoded\<close> and \<^verbatim>\<open>ServeStatus\<close> do
  (lemmas \<open>serveEncoded_status\<close> and \<open>ServeStatus_status\<close>). On the context of the
  tests, \<^verbatim>\<open>ServeResponse([]byte("Not Found"), 404, "text/plain")\<close> leaves the recorded
  status 0, and \<^verbatim>\<open>ServeResponse([]byte("ok"), 0, "")\<close> calls \<^verbatim>\<open>WriteHeader(0)\<close>.
\<close>

theorem C6_ServeResponse_keeps_status:
  "status (ServeResponse test_ctx ''Not Found'' 404 ''text/plain'') = 0 \<and>
   Response (ServeResponse test_ctx ''ok'' 0 []) = [WriteHeader 0, Write ''ok'']"
  by (simp add: ServeResponse_def Let_def test_ctx_def test_world1_def NewContext_def)

text \<open>
  C9. \<^verbatim>\<open>Error(body, status)\<close> passes its status where \<^verbatim>\<open>serveEncoded\<close> expects the
  seconds. For a positive status, a call that returns has set \<^verbatim>\<open>Cache-control\<close> to
  \<^verbatim>\<open>private, must-revalidate, max-age=<status>\<close>, has written the HTTP status 200 and
  has recorded 200 as the context's status.
\<close>

theorem C9_Error_status_as_ttl:
  assumes "0 < st" and "Error c body st = (c', Returned u)"
  shows "Response c' =
           Response c @
           [HeaderSet ''Content-Type'' (ContentType (coder c)),
            HeaderSet ''Cache-control'' (''private, must-revalidate, max-age='' @ Sprintf_d st),
            WriteHeader 200] @
           (case body of nil \<Rightarrow> [] | Val x \<Rightarrow> map Write (fst (Encode (coder c) body))) \<and>
         header_value (Response c') ''Cache-control'' =
           Some (''private, must-revalidate, max-age='' @ Sprintf_d st) \<and>
         status c' = 200"
proof -
  have r: "Response c' =
           Response c @
           [HeaderSet ''Content-Type'' (ContentType (coder c)),
            HeaderSet ''Cache-control'' (''private, must-revalidate, max-age='' @ Sprintf_d st),
            WriteHeader 200] @
           (case body of nil \<Rightarrow> [] | Val x \<Rightarrow> map Write (fst (Encode (coder c) body)))"
    using serveEncoded_Response[of c body 0 st] assms by (simp add: Error_def)
  have h: "header_value (Response c') ''Cache-control'' =
           Some (''private, must-revalidate, max-age='' @ Sprintf_d st)"
    unfolding r by (simp add: header_value_append header_value_map_Write split: iface.splits)
  have s: "status c' = 200"
    using serveEncoded_status[of c body 0 st c' u] assms(2) by (simp add: Error_def)
  show ?thesis using r h s by simp
qed

theorem C9_Error_status_as_ttl_witness:
  "snd (Error test_ctx (Val ''Not Found'') 404) = Returned () \<and>
   Response (fst (Error test_ctx (Val ''Not Found'') 404)) =
     [HeaderSet ''Content-Type'' ''application/json;charset=UTF-8'',
      HeaderSet ''Cache-control'' ''private, must-revalidate, max-age=404'',
      WriteHeader 200,
      Write (CHR 0x22 # ''Not Found'' @ [CHR 0x22, CHR 0x0A])] \<and>
   status (fst (Error test_ctx (Val ''Not Found'') 404)) = 200"
proof -
  have s: "snd (Error test_ctx (Val ''Not Found'') 404) = Returned ()"
    by (simp add: Error_def serveEncoded_def Let_def test_ctx_def test_world1_def NewContext_def
        JSONEncoder_def)
  have e: "Error test_ctx (Val ''Not Found'') 404 =
             (fst (Error test_ctx (Val ''Not Found'') 404), Returned ())"
    using s by (simp add: prod_eq_iff)
  have p: "(0::int) < 404" by simp
  show ?thesis
    using C9_Error_status_as_ttl[OF p e] s by (simp add: test_ctx_fields Sprintf_d_404)
qed

section \<open>The dispatcher: claims\<close>



text \<open>
  C1 does not hold on the path where a panic is recovered and a server-error handler is
  configured: the deferred function calls the handler and returns before the statement
  that writes the completion record. The dispatcher and the route of
  \<^verbatim>\<open>Test_ServerErrorHandler\<close> (a handler that panics), run on one request, log the
  first line, the three lines of the recovery and the line before the server-error
  handler, and no completion record, although the handler has recorded the status 500.
  On the other three paths the record is written exactly once (lemmas
  \<open>deferred_completions\<close>, \<open>addroute_f_treemux_completions\<close> and
  \<open>AddGroup_f_completions\<close>).
\<close>

theorem C1_no_completion_record_after_server_error:
  "handlers (router test_server_error) = [(''GET'', ''/'', Route_closure (Some panic_handler) [])] \<and>
   res_log (invoke test_server_error (Route_closure (Some panic_handler) []) [] ''7f1c'' [] test_req None) =
     [Started ''7f1c'' ''GET'' ''/'' '''', PanicError ''Panic Test'', PanicRecovering, StackDump,
      PanicRecovering] \<and>
   res_log (addroute_f_httprouter test_server_error (Some panic_handler) [] [] ''7f1c'' [] test_req None) =
     [Started ''7f1c'' ''GET'' ''/'' '''', PanicError ''Panic Test'', PanicRecovering, StackDump,
      PanicRecovering] \<and>
   status (ctx (res_world (invoke test_server_error (Route_closure (Some panic_handler) [])
      [] ''7f1c'' [] test_req None))) = 500"
  by (simp add: test_server_error_fields addroute_f_treemux_def addroute_f_httprouter_def Let_def
      addroute_body_def deferred_def started_def NewContext_def test_req_def panic_handler_def
      se_handler_def ServeWithStatus_def serveEncoded_def JSONEncoder_def)


text \<open>
  C4, as stated, fails for a route registered through a group: the file that has
  \<^verbatim>\<open>AddGroup\<close> never sets \<^verbatim>\<open>X-Request-Id\<close>. A request for the last route of the
  group above ends with the context's identity set and the header absent.
\<close>

theorem C4_group_route_has_no_request_id_counterexample:
  "ID (ctx (res_world (invoke test_group_cobalt
      (snd (snd (last (handlers (router test_group_cobalt)))))
      [] ''7f1c'' [] (test_req\<lparr>RequestURI := ''/b''\<rparr>) None))) = ''7f1c'' \<and>
   header_value (Response (ctx (res_world (invoke test_group_cobalt
      (snd (snd (last (handlers (router test_group_cobalt)))))
      [] ''7f1c'' [] (test_req\<lparr>RequestURI := ''/b''\<rparr>) None)))) ''X-Request-Id'' = None"
  by (simp add: test_group_cobalt_fields test_group_fields AddGroup_f_def AddGroup_body_def
      deferred_def Let_def NewContext_def write_handler_def)

text \<open>
  C4, amended. In src/cobalt.go the closure of \<^verbatim>\<open>addroute\<close> makes a first call (a
  filter, or the handler when there is no filter), and the context that call receives
  has the identity generated for the request and, as the one call made on the response
  by then, \<^verbatim>\<open>X-Request-Id\<close> set to that identity (so the header is as non-empty as the
  identity the uuid package generates). The closure of \<^verbatim>\<open>AddNotFoundHandler\<close> hands
  the response over untouched. So do, in the file with groups, the closures of
  \<^verbatim>\<open>addroute\<close> and \<^verbatim>\<open>AddGroup\<close>: that file sets no \<^verbatim>\<open>X-Request-Id\<close>.
\<close>

theorem C4_request_id_header:
  "(let r = addroute_f_httprouter c h filters hp uuid resp req p;
        w0 = arg (hd (res_calls r))
    in res_calls r \<noteq> [] \<and> who (hd (res_calls r)) = hd (addroute_order c filters) \<and>
       ID (ctx w0) = uuid \<and>
       Response (ctx w0) = resp @ [HeaderSet ''X-Request-Id'' uuid] \<and>
       header_value (Response (ctx w0)) ''X-Request-Id'' = Some uuid) \<and>
   (let r = AddNotFoundHandler_t c nf hp uuid resp req;
        w0 = arg (hd (res_calls r))
    in res_calls r \<noteq> [] \<and> ID (ctx w0) = uuid \<and> Response (ctx w0) = resp) \<and>
   (let r = addroute_f_treemux c h filters hp uuid resp req p;
        w0 = arg (hd (res_calls r))
    in res_calls r \<noteq> [] \<and> ID (ctx w0) = uuid \<and> Response (ctx w0) = resp) \<and>
   (let r = AddGroup_f c g route hp uuid resp req p;
        w0 = arg (hd (res_calls r))
    in res_calls r \<noteq> [] \<and> ID (ctx w0) = uuid \<and> Response (ctx w0) = resp)"
  using addroute_f_httprouter_first[of c h filters hp uuid resp req p]
    addroute_f_treemux_first[of c h filters hp uuid resp req p]
    AddGroup_f_first[of c g route hp uuid resp req p]
  by (simp add: Let_def NewContext_def header_value_append AddNotFoundHandler_t_def
      split: prod.splits)


end
